theory Spec2Isabelle
  imports Complex_Main
begin

section \<open>SQL values shared by the migrations\<close>

text \<open>
  The repository keeps its persistent state in PostgreSQL tables declared by four migration
  files, and its behaviour at the storage level is written as PL/pgSQL functions. A nullable
  column is an \<open>option\<close>; a condition is three-valued (\<open>bool option\<close>, \<open>None\<close> is
  SQL's unknown); a \<open>WHERE\<close> clause keeps a row only when its condition is true, a
  \<open>CHECK\<close> constraint rejects a row only when its condition is false.
\<close>

type_synonym uuid = nat

text \<open>\<open>TIMESTAMPTZ\<close>: microseconds since the epoch.\<close>

type_synonym timestamptz = int

text \<open>\<open>vector\<close> (pgvector): a sequence of reals; the dimension is part of the column type.\<close>

type_synonym vector = "real list"

datatype sql_error =
    not_null_violation
  | check_violation
  | unique_violation
  | foreign_key_violation
  | insufficient_privilege
  | data_exception
  | numeric_value_out_of_range
  | string_data_right_truncation
  | division_by_zero
  | invalid_row_count_in_limit_clause

fun sqlstate :: "sql_error \<Rightarrow> string" where
  "sqlstate not_null_violation = ''23502''"
| "sqlstate check_violation = ''23514''"
| "sqlstate unique_violation = ''23505''"
| "sqlstate foreign_key_violation = ''23503''"
| "sqlstate insufficient_privilege = ''42501''"
| "sqlstate data_exception = ''22000''"
| "sqlstate numeric_value_out_of_range = ''22003''"
| "sqlstate string_data_right_truncation = ''22001''"
| "sqlstate division_by_zero = ''22012''"
| "sqlstate invalid_row_count_in_limit_clause = ''2201W''"

fun sql_eq :: "'a option \<Rightarrow> 'a option \<Rightarrow> bool option" where
  "sql_eq (Some a) (Some b) = Some (a = b)"
| "sql_eq _ _ = None"

fun sql_ge :: "'a::linorder option \<Rightarrow> 'a option \<Rightarrow> bool option" where
  "sql_ge (Some a) (Some b) = Some (a \<ge> b)"
| "sql_ge _ _ = None"

fun sql_le :: "'a::linorder option \<Rightarrow> 'a option \<Rightarrow> bool option" where
  "sql_le (Some a) (Some b) = Some (a \<le> b)"
| "sql_le _ _ = None"

fun sql_and :: "bool option \<Rightarrow> bool option \<Rightarrow> bool option" where
  "sql_and (Some False) _ = Some False"
| "sql_and _ (Some False) = Some False"
| "sql_and (Some True) (Some True) = Some True"
| "sql_and _ _ = None"

fun sql_or :: "bool option \<Rightarrow> bool option \<Rightarrow> bool option" where
  "sql_or (Some True) _ = Some True"
| "sql_or _ (Some True) = Some True"
| "sql_or (Some False) (Some False) = Some False"
| "sql_or _ _ = None"

text \<open>\<open>x IN (v1, ..., vn)\<close> is \<open>x = v1 OR ... OR x = vn\<close>; the list may hold \<open>NULL\<close>.\<close>

fun sql_in :: "'a option \<Rightarrow> 'a option list \<Rightarrow> bool option" where
  "sql_in x [] = Some False"
| "sql_in x (v # vs) = sql_or (sql_eq x v) (sql_in x vs)"

definition is_true :: "bool option \<Rightarrow> bool" where
  "is_true c = (c = Some True)"

definition check_passes :: "bool option \<Rightarrow> bool" where
  "check_passes c = (c \<noteq> Some False)"

text \<open>\<open>INTEGER\<close> is a 32-bit signed integer; a value outside the range is an error.\<close>

definition int4_ok :: "int option \<Rightarrow> bool" where
  "int4_ok v = (case v of None \<Rightarrow> True | Some n \<Rightarrow> - 2147483648 \<le> n \<and> n \<le> 2147483647)"

text \<open>
  \<open>FLOAT\<close> is \<open>double precision\<close>: a number, here a real, or one of the three special
  values. PostgreSQL compares them in the order minus infinity, the numbers, infinity,
  \<open>NaN\<close>: \<open>NaN\<close> is equal to itself and above everything else.
\<close>

datatype float8 = MinusInfinity | Number real | PlusInfinity | NaN

fun float8_rank :: "float8 \<Rightarrow> nat" where
  "float8_rank MinusInfinity = 0"
| "float8_rank (Number _) = 1"
| "float8_rank PlusInfinity = 2"
| "float8_rank NaN = 3"

fun float8_number :: "float8 \<Rightarrow> real" where
  "float8_number (Number r) = r"
| "float8_number _ = 0"

instantiation float8 :: linorder
begin

definition less_eq_float8 :: "float8 \<Rightarrow> float8 \<Rightarrow> bool" where
  "less_eq_float8 a b =
     (float8_rank a < float8_rank b
      \<or> (float8_rank a = float8_rank b \<and> float8_number a \<le> float8_number b))"

definition less_float8 :: "float8 \<Rightarrow> float8 \<Rightarrow> bool" where
  "less_float8 a b = (a \<le> b \<and> \<not> b \<le> a)"

instance
proof
  fix x y z :: float8
  show "(x < y) = (x \<le> y \<and> \<not> y \<le> x)"
    by (simp add: less_float8_def)
  show "x \<le> x"
    by (simp add: less_eq_float8_def)
  show "x \<le> y \<Longrightarrow> y \<le> z \<Longrightarrow> x \<le> z"
    by (auto simp: less_eq_float8_def)
  show "x \<le> y \<Longrightarrow> y \<le> x \<Longrightarrow> x = y"
    by (cases x; cases y) (auto simp: less_eq_float8_def)
  show "x \<le> y \<or> y \<le> x"
    by (auto simp: less_eq_float8_def)
qed

end


text \<open>
  \<open>ORDER BY key ASC\<close>: ascending, \<open>NULL\<close> keys last (the PostgreSQL default). The order
  among equal keys is not fixed by SQL; the model keeps the order of the scan.
\<close>

fun nulls_last_le :: "'k::linorder option \<Rightarrow> 'k option \<Rightarrow> bool" where
  "nulls_last_le _ None = True"
| "nulls_last_le None (Some _) = False"
| "nulls_last_le (Some a) (Some b) = (a \<le> b)"

fun insert_by :: "('a \<Rightarrow> 'k::linorder option) \<Rightarrow> 'a \<Rightarrow> 'a list \<Rightarrow> 'a list" where
  "insert_by key x [] = [x]"
| "insert_by key x (y # ys) =
     (if nulls_last_le (key x) (key y) then x # y # ys else y # insert_by key x ys)"

fun order_by_asc :: "('a \<Rightarrow> 'k::linorder option) \<Rightarrow> 'a list \<Rightarrow> 'a list" where
  "order_by_asc key [] = []"
| "order_by_asc key (x # xs) = insert_by key x (order_by_asc key xs)"





section \<open>The jobs table (supabase-migration-hunt.sql)\<close>

text \<open>
  One field per column of \<open>CREATE TABLE jobs\<close>, followed by the four columns that
  supabase-migration-enrich-tracking.sql adds. The primary key \<open>id\<close> is never
  \<open>NULL\<close>; every other column is nullable at the level of the type and the \<open>NOT NULL\<close>
  constraints are checked on write.
\<close>

record job =
  job_id :: uuid
  company_id :: "uuid option"
  raw_job_id :: "uuid option"
  title :: "string option"
  description :: "string option"
  source_url :: "string option"
  role_family :: "string option"
  role_specialization :: "string option"
  seniority :: "string option"
  location_type :: "string option"
  locations :: "string list option"
  skills :: "string list option"
  min_salary :: "int option"
  max_salary :: "int option"
  employment_type :: "string option"
  posted_at :: "timestamptz option"
  freshness_score :: "real option"
  embedding :: "vector option"
  is_active :: "bool option"
  created_at :: "timestamptz option"
  updated_at :: "timestamptz option"
  enrich_failed_at :: "timestamptz option"
  last_verified_at :: "timestamptz option"
  delisted_at :: "timestamptz option"
  delist_reason :: "string option"

text \<open>A column of type \<open>vector(384)\<close> takes \<open>NULL\<close> or a vector of 384 components.\<close>

definition vector384_ok :: "vector option \<Rightarrow> bool" where
  "vector384_ok v = (case v of None \<Rightarrow> True | Some x \<Rightarrow> length x = 384)"

text \<open>
  A column of type \<open>VARCHAR(100)\<close> takes \<open>NULL\<close> or a string. A string of more than
  100 characters is an error, unless the characters beyond the first 100 are all spaces:
  then the first 100 are stored.
\<close>

definition varchar100_ok :: "string option \<Rightarrow> bool" where
  "varchar100_ok v = (case v of None \<Rightarrow> True | Some x \<Rightarrow> \<forall>c\<in>set (drop 100 x). c = CHR '' '')"

definition varchar100 :: "string option \<Rightarrow> string option" where
  "varchar100 v = map_option (take 100) v"

definition role_family_values :: "string option list" where
  "role_family_values =
     [Some ''software_engineering'', Some ''infrastructure'', Some ''data'', Some ''product'',
      Some ''design'', Some ''engineering_management'', Some ''sales'', Some ''marketing'',
      Some ''operations'', Some ''finance'', Some ''legal'', Some ''people'',
      Some ''customer_success'', Some ''other'']"

definition seniority_values :: "string option list" where
  "seniority_values =
     [Some ''intern'', Some ''junior'', Some ''mid'', Some ''senior'', Some ''staff'',
      Some ''principal'', Some ''director'', Some ''vp'', Some ''c_level'', None]"

text \<open>The \<open>CHECK\<close> constraints of the table, in the order of their declaration.\<close>

definition jobs_checks :: "job \<Rightarrow> bool" where
  "jobs_checks r =
     (check_passes (sql_in (role_family r) role_family_values)
      \<and> check_passes (sql_in (seniority r) seniority_values)
      \<and> check_passes (sql_in (location_type r) [Some ''remote'', Some ''hybrid'', Some ''onsite'', None])
      \<and> check_passes (sql_in (employment_type r)
            [Some ''full_time'', Some ''part_time'', Some ''contract'', Some ''freelance'',
             Some ''internship'', None])
      \<and> check_passes (sql_and (sql_ge (freshness_score r) (Some 0))
                               (sql_le (freshness_score r) (Some 1))))"

text \<open>
  What a single row is checked for when it is written: the column types first (a value
  that does not fit its type never reaches the table), then \<open>NOT NULL\<close>, then \<open>CHECK\<close>.
\<close>

definition jobs_row_error :: "job \<Rightarrow> sql_error option" where
  "jobs_row_error r =
     (if \<not> vector384_ok (embedding r) then Some data_exception
      else if \<not> (int4_ok (min_salary r) \<and> int4_ok (max_salary r))
        then Some numeric_value_out_of_range
      else if \<not> varchar100_ok (delist_reason r) then Some string_data_right_truncation
      else if title r = None \<or> source_url r = None \<or> role_family r = None
        then Some not_null_violation
      else if \<not> jobs_checks r then Some check_violation
      else None)"

text \<open>The row as it is stored once it has passed: \<open>delist_reason\<close> cut to its length.\<close>

definition jobs_assign :: "job \<Rightarrow> job" where
  "jobs_assign r = r\<lparr>delist_reason := varchar100 (delist_reason r)\<rparr>"

text \<open>
  \<open>UNIQUE(company_id, source_url)\<close>: two rows conflict when both columns are equal and
  not \<open>NULL\<close> (PostgreSQL's default, \<open>NULLS DISTINCT\<close>).
\<close>

definition jobs_unique_key :: "job \<Rightarrow> (uuid \<times> string) option" where
  "jobs_unique_key r =
     (case (company_id r, source_url r) of (Some c, Some u) \<Rightarrow> Some (c, u) | _ \<Rightarrow> None)"

definition jobs_unique :: "job list \<Rightarrow> bool" where
  "jobs_unique tbl =
     (distinct (map job_id tbl) \<and> distinct (List.map_filter jobs_unique_key tbl))"

text \<open>\<open>REFERENCES parent(id)\<close>: \<open>NULL\<close> or the id of a row of the parent table.\<close>

definition references_ok :: "uuid list \<Rightarrow> uuid option \<Rightarrow> bool" where
  "references_ok parent_ids v = (case v of None \<Rightarrow> True | Some i \<Rightarrow> i \<in> set parent_ids)"

definition jobs_fk_ok :: "uuid list \<Rightarrow> uuid list \<Rightarrow> job \<Rightarrow> bool" where
  "jobs_fk_ok companies jobs_raw r =
     (references_ok companies (company_id r) \<and> references_ok jobs_raw (raw_job_id r))"

text \<open>
  \<open>INSERT INTO jobs\<close> of one row, given the ids present in \<open>companies\<close> and \<open>jobs_raw\<close>.
  The row is the one to be stored, the defaults of the columns left out filled in. On an
  error the table is unchanged.
\<close>

definition insert_job :: "uuid list \<Rightarrow> uuid list \<Rightarrow> job \<Rightarrow> job list \<Rightarrow> sql_error + job list" where
  "insert_job companies jobs_raw r tbl =
     (case jobs_row_error r of
        Some e \<Rightarrow> Inl e
      | None \<Rightarrow>
          if \<not> jobs_unique (tbl @ [jobs_assign r]) then Inl unique_violation
          else if \<not> jobs_fk_ok companies jobs_raw r then Inl foreign_key_violation
          else Inr (tbl @ [jobs_assign r]))"

text \<open>
  The trigger \<open>update_jobs_updated_at\<close> (\<open>BEFORE UPDATE ... FOR EACH ROW\<close>) runs
  \<open>update_updated_at_column\<close>: \<open>NEW.updated_at = NOW()\<close>.
\<close>

definition update_updated_at_column :: "timestamptz \<Rightarrow> job \<Rightarrow> job" where
  "update_updated_at_column now new = new\<lparr>updated_at := Some now\<rparr>"

text \<open>
  \<open>UPDATE jobs SET ... WHERE ...\<close>: the rows that satisfy the condition \<open>wh\<close> are
  replaced by their image under the \<open>SET\<close> clause \<open>upd\<close> and the trigger; every new
  row is checked, and the unique indexes are checked on the table the statement leaves.
\<close>

definition update_jobs ::
    "timestamptz \<Rightarrow> uuid list \<Rightarrow> uuid list \<Rightarrow> (job \<Rightarrow> bool) \<Rightarrow> (job \<Rightarrow> job) \<Rightarrow> job list
      \<Rightarrow> sql_error + job list" where
  "update_jobs now companies jobs_raw wh upd tbl =
     (let new_rows = map (\<lambda>r. update_updated_at_column now (upd r)) (filter wh tbl);
          tbl' = map (\<lambda>r. if wh r then jobs_assign (update_updated_at_column now (upd r))
                           else r) tbl
      in case List.map_filter jobs_row_error new_rows of
           e # _ \<Rightarrow> Inl e
         | [] \<Rightarrow>
             if \<not> jobs_unique tbl' then Inl unique_violation
             else if \<not> list_all (jobs_fk_ok companies jobs_raw) new_rows
               then Inl foreign_key_violation
             else Inr tbl')"

text \<open>\<open>DELETE FROM jobs WHERE ...\<close>, also what a cascading delete of a company does.\<close>

definition delete_jobs :: "(job \<Rightarrow> bool) \<Rightarrow> job list \<Rightarrow> job list" where
  "delete_jobs wh tbl = filter (\<lambda>r. \<not> wh r) tbl"

text \<open>
  The states of the table: empty after the migration, then changed by statements that
  succeed. \<open>W\<close> is what the writers promise about every row they store
  (\<open>unconstrained\<close> for no promise at all).
\<close>

inductive jobs_reachable :: "(job \<Rightarrow> bool) \<Rightarrow> job list \<Rightarrow> bool" for W :: "job \<Rightarrow> bool" where
  jobs_empty: "jobs_reachable W []"
| jobs_insert:
    "jobs_reachable W tbl \<Longrightarrow> W (jobs_assign r)
      \<Longrightarrow> insert_job companies jobs_raw r tbl = Inr tbl'
      \<Longrightarrow> jobs_reachable W tbl'"
| jobs_update:
    "jobs_reachable W tbl
      \<Longrightarrow> \<forall>r\<in>set tbl. wh r \<longrightarrow> W (jobs_assign (update_updated_at_column now (upd r)))
      \<Longrightarrow> update_jobs now companies jobs_raw wh upd tbl = Inr tbl'
      \<Longrightarrow> jobs_reachable W tbl'"
| jobs_delete:
    "jobs_reachable W tbl \<Longrightarrow> jobs_reachable W (delete_jobs wh tbl)"

definition salary_ordered :: "job \<Rightarrow> bool" where
  "salary_ordered r =
     (case (min_salary r, max_salary r) of (Some lo, Some hi) \<Rightarrow> lo \<le> hi | _ \<Rightarrow> True)"

definition unconstrained :: "job \<Rightarrow> bool" where
  "unconstrained r = True"

text \<open>
  A row for the examples below: the given id, salary range, embedding and activity flag,
  a title, a source URL and a role family, the rest \<open>NULL\<close>.
\<close>

definition job_row :: "uuid \<Rightarrow> int option \<Rightarrow> int option \<Rightarrow> vector option \<Rightarrow> bool option \<Rightarrow> job" where
  "job_row i lo hi emb act =
     \<lparr>job_id = i, company_id = None, raw_job_id = None, title = Some ''Backend Engineer'',
      description = None, source_url = Some ''https://boards.greenhouse.io/acme/jobs/1'',
      role_family = Some ''software_engineering'', role_specialization = None,
      seniority = None, location_type = None, locations = None, skills = None,
      min_salary = lo, max_salary = hi, employment_type = None, posted_at = None,
      freshness_score = None, embedding = emb, is_active = act, created_at = None,
      updated_at = None, enrich_failed_at = None, last_verified_at = None,
      delisted_at = None, delist_reason = None\<rparr>"


section \<open>The candidate_profiles table (supabase-migration-hunt.sql)\<close>

record candidate_profile =
  cp_id :: uuid
  cp_waitlist_id :: "uuid option"
  cp_email :: "string option"
  cp_name :: "string option"
  cp_role_families :: "string list option"
  cp_seniority :: "string option"
  cp_min_salary :: "int option"
  cp_locations :: "string list option"
  cp_location_types :: "string list option"
  cp_role_types :: "string list option"
  cp_skills :: "string list option"
  cp_exclusions :: "string list option"
  cp_embedding :: "vector option"
  cp_last_matched_at :: "timestamptz option"
  cp_last_notified_at :: "timestamptz option"
  cp_is_active :: "bool option"
  cp_created_at :: "timestamptz option"
  cp_updated_at :: "timestamptz option"

text \<open>\<open>a <@ b\<close> on arrays: every element of \<open>a\<close> is an element of \<open>b\<close>.\<close>

definition contained_by :: "string list option \<Rightarrow> string list \<Rightarrow> bool option" where
  "contained_by a b = map_option (\<lambda>xs. set xs \<subseteq> set b) a"

definition candidate_profiles_checks :: "candidate_profile \<Rightarrow> bool" where
  "candidate_profiles_checks r =
     (check_passes (sql_in (cp_seniority r) seniority_values)
      \<and> check_passes (contained_by (cp_location_types r) [''remote'', ''hybrid'', ''onsite''])
      \<and> check_passes (contained_by (cp_role_types r) [''permanent'', ''contract'', ''freelance'']))"

definition candidate_profiles_row_error :: "candidate_profile \<Rightarrow> sql_error option" where
  "candidate_profiles_row_error r =
     (if \<not> vector384_ok (cp_embedding r) then Some data_exception
      else if \<not> int4_ok (cp_min_salary r) then Some numeric_value_out_of_range
      else if cp_email r = None then Some not_null_violation
      else if \<not> candidate_profiles_checks r then Some check_violation
      else None)"

text \<open>The primary key, \<open>waitlist_id ... UNIQUE\<close> and \<open>email TEXT UNIQUE\<close>.\<close>

definition candidate_profiles_unique :: "candidate_profile list \<Rightarrow> bool" where
  "candidate_profiles_unique tbl =
     (distinct (map cp_id tbl) \<and> distinct (List.map_filter cp_waitlist_id tbl)
      \<and> distinct (List.map_filter cp_email tbl))"

definition insert_candidate_profile ::
    "uuid list \<Rightarrow> candidate_profile \<Rightarrow> candidate_profile list
      \<Rightarrow> sql_error + candidate_profile list" where
  "insert_candidate_profile waitlist r tbl =
     (case candidate_profiles_row_error r of
        Some e \<Rightarrow> Inl e
      | None \<Rightarrow>
          if \<not> candidate_profiles_unique (tbl @ [r]) then Inl unique_violation
          else if \<not> references_ok waitlist (cp_waitlist_id r) then Inl foreign_key_violation
          else Inr (tbl @ [r]))"

text \<open>The trigger \<open>update_candidate_profiles_updated_at\<close> runs the same function.\<close>

definition cp_update_updated_at_column :: "timestamptz \<Rightarrow> candidate_profile \<Rightarrow> candidate_profile" where
  "cp_update_updated_at_column now new = new\<lparr>cp_updated_at := Some now\<rparr>"

definition update_candidate_profiles ::
    "timestamptz \<Rightarrow> uuid list \<Rightarrow> (candidate_profile \<Rightarrow> bool)
      \<Rightarrow> (candidate_profile \<Rightarrow> candidate_profile) \<Rightarrow> candidate_profile list
      \<Rightarrow> sql_error + candidate_profile list" where
  "update_candidate_profiles now waitlist wh upd tbl =
     (let new_rows = map (\<lambda>r. cp_update_updated_at_column now (upd r)) (filter wh tbl);
          tbl' = map (\<lambda>r. if wh r then cp_update_updated_at_column now (upd r) else r) tbl
      in case List.map_filter candidate_profiles_row_error new_rows of
           e # _ \<Rightarrow> Inl e
         | [] \<Rightarrow>
             if \<not> candidate_profiles_unique tbl' then Inl unique_violation
             else if \<not> list_all (\<lambda>r. references_ok waitlist (cp_waitlist_id r)) new_rows
               then Inl foreign_key_violation
             else Inr tbl')"

definition delete_candidate_profiles ::
    "(candidate_profile \<Rightarrow> bool) \<Rightarrow> candidate_profile list \<Rightarrow> candidate_profile list" where
  "delete_candidate_profiles wh tbl = filter (\<lambda>r. \<not> wh r) tbl"

inductive candidate_profiles_reachable :: "candidate_profile list \<Rightarrow> bool" where
  cp_empty: "candidate_profiles_reachable []"
| cp_insert:
    "candidate_profiles_reachable tbl \<Longrightarrow> insert_candidate_profile waitlist r tbl = Inr tbl'
      \<Longrightarrow> candidate_profiles_reachable tbl'"
| cp_update:
    "candidate_profiles_reachable tbl
      \<Longrightarrow> update_candidate_profiles now waitlist wh upd tbl = Inr tbl'
      \<Longrightarrow> candidate_profiles_reachable tbl'"
| cp_delete:
    "candidate_profiles_reachable tbl
      \<Longrightarrow> candidate_profiles_reachable (delete_candidate_profiles wh tbl)"

definition candidate_profile_row :: "uuid \<Rightarrow> string \<Rightarrow> vector option \<Rightarrow> candidate_profile" where
  "candidate_profile_row i email emb =
     \<lparr>cp_id = i, cp_waitlist_id = None, cp_email = Some email, cp_name = None,
      cp_role_families = None, cp_seniority = None, cp_min_salary = None,
      cp_locations = None, cp_location_types = None, cp_role_types = None,
      cp_skills = None, cp_exclusions = None, cp_embedding = emb,
      cp_last_matched_at = None, cp_last_notified_at = None, cp_is_active = Some True,
      cp_created_at = None, cp_updated_at = None\<rparr>"


section \<open>The matches table (supabase-migration-hunt.sql)\<close>

record match =
  m_id :: uuid
  m_candidate_id :: "uuid option"
  m_job_id :: "uuid option"
  m_score :: "real option"
  m_hard_match :: "bool option"
  m_match_reasons :: "string option"
  m_shown_at :: "timestamptz option"
  m_clicked_at :: "timestamptz option"
  m_applied_at :: "timestamptz option"
  m_dismissed_at :: "timestamptz option"
  m_created_at :: "timestamptz option"

definition matches_row_error :: "match \<Rightarrow> sql_error option" where
  "matches_row_error r =
     (if m_score r = None then Some not_null_violation
      else if \<not> check_passes (sql_and (sql_ge (m_score r) (Some 0)) (sql_le (m_score r) (Some 1)))
        then Some check_violation
      else None)"

text \<open>
  \<open>UNIQUE(candidate_id, job_id)\<close>. Neither column is declared \<open>NOT NULL\<close>, and a row
  with a \<open>NULL\<close> in either column conflicts with no other row.
\<close>

definition matches_unique_key :: "match \<Rightarrow> (uuid \<times> uuid) option" where
  "matches_unique_key r =
     (case (m_candidate_id r, m_job_id r) of (Some c, Some j) \<Rightarrow> Some (c, j) | _ \<Rightarrow> None)"

definition matches_unique :: "match list \<Rightarrow> bool" where
  "matches_unique tbl =
     (distinct (map m_id tbl) \<and> distinct (List.map_filter matches_unique_key tbl))"

definition matches_fk_ok :: "uuid list \<Rightarrow> uuid list \<Rightarrow> match \<Rightarrow> bool" where
  "matches_fk_ok candidates jobs r =
     (references_ok candidates (m_candidate_id r) \<and> references_ok jobs (m_job_id r))"

definition insert_match :: "uuid list \<Rightarrow> uuid list \<Rightarrow> match \<Rightarrow> match list \<Rightarrow> sql_error + match list" where
  "insert_match candidates jobs r tbl =
     (case matches_row_error r of
        Some e \<Rightarrow> Inl e
      | None \<Rightarrow>
          if \<not> matches_unique (tbl @ [r]) then Inl unique_violation
          else if \<not> matches_fk_ok candidates jobs r then Inl foreign_key_violation
          else Inr (tbl @ [r]))"

definition update_matches ::
    "uuid list \<Rightarrow> uuid list \<Rightarrow> (match \<Rightarrow> bool) \<Rightarrow> (match \<Rightarrow> match) \<Rightarrow> match list
      \<Rightarrow> sql_error + match list" where
  "update_matches candidates jobs wh upd tbl =
     (let new_rows = map upd (filter wh tbl);
          tbl' = map (\<lambda>r. if wh r then upd r else r) tbl
      in case List.map_filter matches_row_error new_rows of
           e # _ \<Rightarrow> Inl e
         | [] \<Rightarrow>
             if \<not> matches_unique tbl' then Inl unique_violation
             else if \<not> list_all (matches_fk_ok candidates jobs) new_rows
               then Inl foreign_key_violation
             else Inr tbl')"

text \<open>Also what the cascading delete of a candidate or of a job does.\<close>

definition delete_matches :: "(match \<Rightarrow> bool) \<Rightarrow> match list \<Rightarrow> match list" where
  "delete_matches wh tbl = filter (\<lambda>r. \<not> wh r) tbl"

inductive matches_reachable :: "match list \<Rightarrow> bool" where
  matches_empty: "matches_reachable []"
| matches_insert:
    "matches_reachable tbl \<Longrightarrow> insert_match candidates jobs r tbl = Inr tbl'
      \<Longrightarrow> matches_reachable tbl'"
| matches_update:
    "matches_reachable tbl \<Longrightarrow> update_matches candidates jobs wh upd tbl = Inr tbl'
      \<Longrightarrow> matches_reachable tbl'"
| matches_delete:
    "matches_reachable tbl \<Longrightarrow> matches_reachable (delete_matches wh tbl)"

text \<open>The number of rows that hold a given pair of \<open>candidate_id\<close> and \<open>job_id\<close>.\<close>

definition pair_count :: "uuid option \<Rightarrow> uuid option \<Rightarrow> match list \<Rightarrow> nat" where
  "pair_count c j tbl = length (filter (\<lambda>r. m_candidate_id r = c \<and> m_job_id r = j) tbl)"

definition match_row :: "uuid \<Rightarrow> uuid option \<Rightarrow> uuid option \<Rightarrow> real \<Rightarrow> match" where
  "match_row i c j s =
     \<lparr>m_id = i, m_candidate_id = c, m_job_id = j, m_score = Some s,
      m_hard_match = Some False, m_match_reasons = None, m_shown_at = None,
      m_clicked_at = None, m_applied_at = None, m_dismissed_at = None,
      m_created_at = None\<rparr>"


section \<open>Similarity search (supabase-migration-hunt.sql)\<close>

text \<open>
  \<open>a <=> b\<close> is the cosine distance operator of the pgvector extension. It is not code of
  this repository: \<open>find_similar_jobs\<close> below takes the operator as the parameter \<open>dst\<close>,
  with everything the operator can do: raise an error, or return a \<open>FLOAT\<close>, which may
  be \<open>NaN\<close>. What pgvector's operator does is written out next, over the reals: vectors
  of different dimensions are an error; the result is one minus the cosine of the angle,
  the cosine kept within -1 and 1; and where a vector is all zeros the quotient is
  \<open>0 / 0\<close> and the result is \<open>NaN\<close>.
\<close>

definition inner_product :: "vector \<Rightarrow> vector \<Rightarrow> real" where
  "inner_product a b = sum_list (map2 (*) a b)"

definition pgvector_cosine_distance :: "vector \<Rightarrow> vector \<Rightarrow> sql_error + float8" where
  "pgvector_cosine_distance a b =
     (if length a \<noteq> length b then Inl data_exception
      else if inner_product a a * inner_product b b = 0 then Inr NaN
      else Inr (Number (1 - max (- 1) (min 1
             (inner_product a b / sqrt (inner_product a a * inner_product b b))))))"











section \<open>The discovery queue (supabase-migration-discovery.sql)\<close>

record discovery_item =
  dq_id :: uuid
  dq_name :: "string option"
  dq_domain :: "string option"
  dq_careers_url :: "string option"
  dq_website_url :: "string option"
  dq_source :: "string option"
  dq_source_url :: "string option"
  dq_location :: "string option"
  dq_country :: "string option"
  dq_description :: "string option"
  dq_industry :: "string option"
  dq_employee_count :: "int option"
  dq_funding_stage :: "string option"
  dq_ats_type :: "string option"
  dq_ats_identifier :: "string option"
  dq_status :: "string option"
  dq_error_message :: "string option"
  dq_retry_count :: "int option"
  dq_created_at :: "timestamptz option"
  dq_processed_at :: "timestamptz option"
  dq_company_id :: "uuid option"

text \<open>
  \<open>CHECK (country IS NULL OR length(country) = 2)\<close> and
  \<open>CHECK (status IN ('pending', 'processing', 'completed', 'failed', 'skipped', 'review'))\<close>.
\<close>

definition discovery_queue_checks :: "discovery_item \<Rightarrow> bool" where
  "discovery_queue_checks r =
     (check_passes (sql_or (Some (dq_country r = None))
                           (sql_eq (map_option length (dq_country r)) (Some 2)))
      \<and> check_passes (sql_in (dq_status r)
            [Some ''pending'', Some ''processing'', Some ''completed'', Some ''failed'',
             Some ''skipped'', Some ''review'']))"

definition discovery_queue_row_error :: "discovery_item \<Rightarrow> sql_error option" where
  "discovery_queue_row_error r =
     (if \<not> (int4_ok (dq_employee_count r) \<and> int4_ok (dq_retry_count r))
        then Some numeric_value_out_of_range
      else if dq_name r = None \<or> dq_source r = None then Some not_null_violation
      else if \<not> discovery_queue_checks r then Some check_violation
      else None)"

text \<open>
  \<open>INSERT INTO discovery_queue\<close> of one row. The primary key is the only unique index of
  the table: the indexes on \<open>domain\<close> and \<open>source\<close> are plain ones.
\<close>

definition insert_discovery_item ::
    "uuid list \<Rightarrow> discovery_item \<Rightarrow> discovery_item list \<Rightarrow> sql_error + discovery_item list" where
  "insert_discovery_item companies r q =
     (case discovery_queue_row_error r of
        Some e \<Rightarrow> Inl e
      | None \<Rightarrow>
          if dq_id r \<in> set (map dq_id q) then Inl unique_violation
          else if \<not> references_ok companies (dq_company_id r) then Inl foreign_key_violation
          else Inr (q @ [r]))"

definition pending :: "discovery_item \<Rightarrow> bool" where
  "pending r = is_true (sql_eq (dq_status r) (Some ''pending''))"

text \<open>
  The subquery of \<open>get_next_discovery_item\<close>:
  \<open>SELECT id FROM discovery_queue WHERE status = 'pending' ORDER BY created_at ASC LIMIT 1
  FOR UPDATE SKIP LOCKED\<close>. \<open>locked\<close> holds the ids of the rows that other transactions
  have locked at that moment; it is empty when the call runs alone. A row that is locked
  is passed over before the limit counts it. No row gives \<open>NULL\<close>.
\<close>

definition next_pending_id :: "uuid list \<Rightarrow> discovery_item list \<Rightarrow> uuid option" where
  "next_pending_id locked q =
     (case take 1 (filter (\<lambda>r. dq_id r \<notin> set locked)
                     (order_by_asc dq_created_at (filter pending q))) of
        [] \<Rightarrow> None
      | r # _ \<Rightarrow> Some (dq_id r))"

definition start_processing :: "timestamptz \<Rightarrow> discovery_item \<Rightarrow> discovery_item" where
  "start_processing now r = r\<lparr>dq_status := Some ''processing'', dq_processed_at := Some now\<rparr>"

text \<open>
  \<open>get_next_discovery_item()\<close>: the \<open>UPDATE ... WHERE id = (subquery) RETURNING *\<close>.
  The result is the table after the update and the rows returned.
\<close>

definition get_next_discovery_item ::
    "timestamptz \<Rightarrow> uuid list \<Rightarrow> discovery_item list
      \<Rightarrow> discovery_item list \<times> discovery_item list" where
  "get_next_discovery_item now locked q =
     (let target = next_pending_id locked q;
          hit = (\<lambda>r. is_true (sql_eq (Some (dq_id r)) target))
      in (map (\<lambda>r. if hit r then start_processing now r else r) q,
          map (start_processing now) (filter hit q)))"

text \<open>
  \<open>complete_discovery_item(item_id UUID, new_company_id UUID DEFAULT NULL)\<close>. The new
  \<open>company_id\<close> has to reference a company.
\<close>

definition complete_discovery_item ::
    "timestamptz \<Rightarrow> uuid list \<Rightarrow> uuid option \<Rightarrow> uuid option \<Rightarrow> discovery_item list
      \<Rightarrow> sql_error + discovery_item list" where
  "complete_discovery_item now companies item_id new_company_id q =
     (let hit = (\<lambda>r. is_true (sql_eq (Some (dq_id r)) item_id))
      in if (\<exists>r\<in>set q. hit r) \<and> \<not> references_ok companies new_company_id
           then Inl foreign_key_violation
         else Inr (map (\<lambda>r. if hit r
                             then r\<lparr>dq_status := Some ''completed'',
                                    dq_company_id := new_company_id,
                                    dq_processed_at := Some now\<rparr>
                             else r) q))"

text \<open>
  The \<open>SET\<close> clause of \<open>fail_discovery_item\<close>. Every right-hand side reads the row as
  it was before the update; a \<open>CASE WHEN\<close> takes its branch only when the condition is true.
\<close>

definition fail_row :: "timestamptz \<Rightarrow> string option \<Rightarrow> discovery_item \<Rightarrow> discovery_item" where
  "fail_row now error_msg r =
     r\<lparr>dq_status := Some (if is_true (sql_ge (dq_retry_count r) (Some 3))
                           then ''failed'' else ''pending''),
       dq_error_message := error_msg,
       dq_retry_count := map_option (\<lambda>n. n + 1) (dq_retry_count r),
       dq_processed_at := Some now\<rparr>"

text \<open>
  \<open>fail_discovery_item(item_id UUID, error_msg TEXT)\<close>. \<open>retry_count + 1\<close> is \<open>INTEGER\<close>
  arithmetic and fails beyond the largest 32-bit value.
\<close>

definition fail_discovery_item ::
    "timestamptz \<Rightarrow> uuid option \<Rightarrow> string option \<Rightarrow> discovery_item list
      \<Rightarrow> sql_error + discovery_item list" where
  "fail_discovery_item now item_id error_msg q =
     (let hit = (\<lambda>r. is_true (sql_eq (Some (dq_id r)) item_id))
      in if \<exists>r\<in>set q. hit r \<and> \<not> int4_ok (dq_retry_count (fail_row now error_msg r))
           then Inl numeric_value_out_of_range
         else Inr (map (\<lambda>r. if hit r then fail_row now error_msg r else r) q))"

text \<open>
  Consecutive failures of the same item, one call for each, with the time and the message
  of each failure. (Taking the item again in between, with \<open>get_next_discovery_item\<close>,
  changes neither \<open>retry_count\<close> nor anything that \<open>fail_discovery_item\<close> reads.)
\<close>

fun fail_repeatedly ::
    "(timestamptz \<times> string option) list \<Rightarrow> uuid option \<Rightarrow> discovery_item list
      \<Rightarrow> sql_error + discovery_item list" where
  "fail_repeatedly [] item_id q = Inr q"
| "fail_repeatedly ((now, error_msg) # rest) item_id q =
     (case fail_discovery_item now item_id error_msg q of
        Inl e \<Rightarrow> Inl e
      | Inr q' \<Rightarrow> fail_repeatedly rest item_id q')"


text \<open>A row of the queue for the examples below: its id, status, retry count and creation time.\<close>

definition queue_item :: "uuid \<Rightarrow> string \<Rightarrow> int option \<Rightarrow> timestamptz option \<Rightarrow> discovery_item" where
  "queue_item i st rc created =
     \<lparr>dq_id = i, dq_name = Some ''Acme'', dq_domain = None, dq_careers_url = None,
      dq_website_url = None, dq_source = Some ''seed'', dq_source_url = None,
      dq_location = None, dq_country = None, dq_description = None, dq_industry = None,
      dq_employee_count = None, dq_funding_stage = None, dq_ats_type = None,
      dq_ats_identifier = None, dq_status = Some st, dq_error_message = None,
      dq_retry_count = rc, dq_created_at = created, dq_processed_at = None,
      dq_company_id = None\<rparr>"


section \<open>Discovery intake\<close>

text \<open>
  A company candidate as a discovery source produces it: a name, an optional domain,
  careers URL and website URL, the metadata (location, country, industry, employee count,
  funding stage) and the tag of the source.
\<close>

record company_candidate =
  cc_name :: string
  cc_domain :: "string option"
  cc_careers_url :: "string option"
  cc_website_url :: "string option"
  cc_location :: "string option"
  cc_country :: "string option"
  cc_industry :: "string option"
  cc_employee_count :: "int option"
  cc_funding_stage :: "string option"
  cc_source :: string

text \<open>
  Modelled from the spec: the intake of the discovery orchestrator, which inserts the
  candidates into \<open>discovery_queue\<close>, is backend code that is not among the sources; the
  table it writes is. The spec: the orchestrator "inserts into the \<open>discovery_queue\<close> table
  with a deduplication key computed from normalized domain (fallback: normalized name).
  Duplicates are merged (the newer metadata enriches the older row when non-null)."
  The two normalisations are not specified and are parameters.
\<close>

definition dedupe_key :: "(string \<Rightarrow> string) \<Rightarrow> (string \<Rightarrow> string) \<Rightarrow> company_candidate \<Rightarrow> string" where
  "dedupe_key norm_domain norm_name c =
     (case cc_domain c of Some d \<Rightarrow> norm_domain d | None \<Rightarrow> norm_name (cc_name c))"

definition row_dedupe_key ::
    "(string \<Rightarrow> string) \<Rightarrow> (string \<Rightarrow> string) \<Rightarrow> discovery_item \<Rightarrow> string option" where
  "row_dedupe_key norm_domain norm_name r =
     (case dq_domain r of
        Some d \<Rightarrow> Some (norm_domain d)
      | None \<Rightarrow> map_option norm_name (dq_name r))"

text \<open>The row of a new candidate: the columns it carries, the rest at their defaults.\<close>

definition new_discovery_item :: "uuid \<Rightarrow> timestamptz \<Rightarrow> company_candidate \<Rightarrow> discovery_item" where
  "new_discovery_item new_id now c =
     \<lparr>dq_id = new_id, dq_name = Some (cc_name c), dq_domain = cc_domain c,
      dq_careers_url = cc_careers_url c, dq_website_url = cc_website_url c,
      dq_source = Some (cc_source c), dq_source_url = None, dq_location = cc_location c,
      dq_country = cc_country c, dq_description = None, dq_industry = cc_industry c,
      dq_employee_count = cc_employee_count c, dq_funding_stage = cc_funding_stage c,
      dq_ats_type = None, dq_ats_identifier = None, dq_status = Some ''pending'',
      dq_error_message = None, dq_retry_count = Some 0, dq_created_at = Some now,
      dq_processed_at = None, dq_company_id = None\<rparr>"

text \<open>A newer value that is not \<open>NULL\<close> replaces the older one.\<close>

definition coalesce :: "'a option \<Rightarrow> 'a option \<Rightarrow> 'a option" where
  "coalesce newer older = (case newer of Some v \<Rightarrow> Some v | None \<Rightarrow> older)"

definition merge_metadata :: "company_candidate \<Rightarrow> discovery_item \<Rightarrow> discovery_item" where
  "merge_metadata c r =
     r\<lparr>dq_location := coalesce (cc_location c) (dq_location r),
       dq_country := coalesce (cc_country c) (dq_country r),
       dq_industry := coalesce (cc_industry c) (dq_industry r),
       dq_employee_count := coalesce (cc_employee_count c) (dq_employee_count r),
       dq_funding_stage := coalesce (cc_funding_stage c) (dq_funding_stage r)\<rparr>"

definition enqueue_candidate ::
    "(string \<Rightarrow> string) \<Rightarrow> (string \<Rightarrow> string) \<Rightarrow> uuid \<Rightarrow> timestamptz \<Rightarrow> company_candidate
      \<Rightarrow> discovery_item list \<Rightarrow> sql_error + discovery_item list" where
  "enqueue_candidate norm_domain norm_name new_id now c q =
     (case find (\<lambda>r. row_dedupe_key norm_domain norm_name r
                        = Some (dedupe_key norm_domain norm_name c)) q of
        None \<Rightarrow> insert_discovery_item [] (new_discovery_item new_id now c) q
      | Some older \<Rightarrow>
          (case discovery_queue_row_error (merge_metadata c older) of
             Some e \<Rightarrow> Inl e
           | None \<Rightarrow>
               Inr (map (\<lambda>r. if dq_id r = dq_id older then merge_metadata c r else r) q)))"

text \<open>The number of rows of the queue with a given deduplication key.\<close>

definition rows_with_key ::
    "(string \<Rightarrow> string) \<Rightarrow> (string \<Rightarrow> string) \<Rightarrow> string \<Rightarrow> discovery_item list \<Rightarrow> nat" where
  "rows_with_key norm_domain norm_name k q =
     length (filter (\<lambda>r. row_dedupe_key norm_domain norm_name r = Some k) q)"

text \<open>The number of rows of the queue for a domain and a source.\<close>

definition rows_for :: "string \<Rightarrow> string \<Rightarrow> discovery_item list \<Rightarrow> nat" where
  "rows_for d src q = length (filter (\<lambda>r. dq_domain r = Some d \<and> dq_source r = Some src) q)"

definition acme :: company_candidate where
  "acme = \<lparr>cc_name = ''Acme'', cc_domain = Some ''acme.test'', cc_careers_url = None,
            cc_website_url = None, cc_location = Some ''Austin'', cc_country = None,
            cc_industry = None, cc_employee_count = Some 40, cc_funding_stage = None,
            cc_source = ''seed''\<rparr>"

definition acme_again :: company_candidate where
  "acme_again = \<lparr>cc_name = ''Acme Inc'', cc_domain = Some ''acme.test'', cc_careers_url = None,
            cc_website_url = None, cc_location = None, cc_country = Some ''US'',
            cc_industry = Some ''robotics'', cc_employee_count = Some 55,
            cc_funding_stage = None, cc_source = ''seed''\<rparr>"


section \<open>The waitlist (supabase-migration.sql) and its form\<close>

record waitlist_entry =
  w_id :: uuid
  w_name :: "string option"
  w_email :: "string option"
  w_created_at :: "timestamptz option"

definition waitlist_row_error :: "waitlist_entry \<Rightarrow> sql_error option" where
  "waitlist_row_error r =
     (if w_name r = None \<or> w_email r = None then Some not_null_violation else None)"

text \<open>The primary key and \<open>email TEXT UNIQUE NOT NULL\<close>.\<close>

definition waitlist_unique :: "waitlist_entry list \<Rightarrow> bool" where
  "waitlist_unique tbl =
     (distinct (map w_id tbl) \<and> distinct (List.map_filter w_email tbl))"

definition insert_waitlist ::
    "waitlist_entry \<Rightarrow> waitlist_entry list \<Rightarrow> sql_error + waitlist_entry list" where
  "insert_waitlist r tbl =
     (case waitlist_row_error r of
        Some e \<Rightarrow> Inl e
      | None \<Rightarrow> if \<not> waitlist_unique (tbl @ [r]) then Inl unique_violation else Inr (tbl @ [r]))"

text \<open>
  Row-level security. The migration runs \<open>ALTER TABLE waitlist ENABLE ROW LEVEL SECURITY\<close>
  and declares one policy on the table, "Allow anonymous inserts":
  \<open>FOR INSERT WITH CHECK (true)\<close>. A role that is subject to row-level security may write
  a row only if some policy for the command admits it, and where no policy is declared for
  a command nothing is admitted. An \<open>INSERT\<close> with \<open>RETURNING\<close> reads the new row back,
  so the row has to be admitted by a policy for \<open>SELECT\<close> as well. The policies are
  checked on the new row before the constraints of the table and before the unique indexes
  are consulted; a row that is not admitted is the error 42501.
\<close>

datatype db_role = anon | authenticated | service_role

definition bypasses_rls :: "db_role \<Rightarrow> bool" where
  "bypasses_rls r = (r = service_role)"

definition waitlist_insert_policies :: "(waitlist_entry \<Rightarrow> bool) list" where
  "waitlist_insert_policies = [\<lambda>new. True]"

definition waitlist_select_policies :: "(waitlist_entry \<Rightarrow> bool) list" where
  "waitlist_select_policies = []"

definition admitted :: "('r \<Rightarrow> bool) list \<Rightarrow> 'r \<Rightarrow> bool" where
  "admitted policies new = (\<exists>p\<in>set policies. p new)"

text \<open>\<open>INSERT INTO waitlist ... RETURNING ...\<close> as a given role.\<close>

definition insert_waitlist_returning ::
    "db_role \<Rightarrow> waitlist_entry \<Rightarrow> waitlist_entry list \<Rightarrow> sql_error + waitlist_entry list" where
  "insert_waitlist_returning as_role r tbl =
     (if \<not> bypasses_rls as_role
          \<and> \<not> (admitted waitlist_insert_policies r \<and> admitted waitlist_select_policies r)
        then Inl insufficient_privilege
      else insert_waitlist r tbl)"

text \<open>
  What the \<open>await\<close> in \<open>handleSubmit\<close> yields: \<open>data\<close> with the id of the new row, an
  \<open>error\<close> with its \<open>code\<close>, or an exception.
\<close>

datatype insert_result = Data uuid | InsertError string | Thrown

text \<open>
  \<open>getSupabase().from('waitlist').insert({ name, email }).select('id').single()\<close>: the
  insert of one row with the two strings, the id and the creation time at their defaults
  (\<open>gen_random_uuid()\<close> and \<open>NOW()\<close> are the arguments \<open>new_id\<close> and \<open>now\<close>), returning
  the id. The client is created with the anonymous key (\<open>createClient(supabaseUrl,
  supabaseAnonKey)\<close>), so the statement runs as the role \<open>anon\<close>. That the request reaches
  the database is taken for granted.
\<close>

definition waitlist_insert_select_id ::
    "uuid \<Rightarrow> timestamptz \<Rightarrow> string \<Rightarrow> string \<Rightarrow> waitlist_entry list
      \<Rightarrow> insert_result \<times> waitlist_entry list" where
  "waitlist_insert_select_id new_id now name email tbl =
     (case insert_waitlist_returning anon
             \<lparr>w_id = new_id, w_name = Some name, w_email = Some email, w_created_at = Some now\<rparr>
             tbl of
        Inl e \<Rightarrow> (InsertError (sqlstate e), tbl)
      | Inr tbl' \<Rightarrow> (Data new_id, tbl'))"

text \<open>
  The state that \<open>handleSubmit\<close> reads and writes: the component state \<open>error\<close> and
  \<open>isLoading\<close>, the calls of the \<open>onSuccess\<close> property so far, and the waitlist table.
\<close>

record form_state =
  error_text :: string
  isLoading :: bool
  onSuccess_calls :: "uuid list"
  waitlist_rows :: "waitlist_entry list"

text \<open>The body of the \<open>try\<close>, after the \<open>await\<close>, with the \<open>catch\<close>.\<close>

definition after_insert :: "insert_result \<Rightarrow> form_state \<Rightarrow> form_state" where
  "after_insert res st =
     (case res of
        InsertError code \<Rightarrow>
          if code = ''23505'' then st\<lparr>error_text := ''This email is already on the waitlist!''\<rparr>
          else st\<lparr>error_text := ''Something went wrong. Please try again.''\<rparr>
      | Data i \<Rightarrow> st\<lparr>onSuccess_calls := onSuccess_calls st @ [i]\<rparr>
      | Thrown \<Rightarrow> st\<lparr>error_text := ''Something went wrong. Please try again.''\<rparr>)"

definition handleSubmit :: "uuid \<Rightarrow> timestamptz \<Rightarrow> string \<Rightarrow> string \<Rightarrow> form_state \<Rightarrow> form_state" where
  "handleSubmit new_id now name email st =
     (let st1 = st\<lparr>error_text := [], isLoading := True\<rparr>;
          (res, tbl') = waitlist_insert_select_id new_id now name email (waitlist_rows st1);
          st2 = after_insert res (st1\<lparr>waitlist_rows := tbl'\<rparr>)
      in st2\<lparr>isLoading := False\<rparr>)"

text \<open>The number of waitlist rows with a given email.\<close>

definition rows_with_email :: "string \<Rightarrow> waitlist_entry list \<Rightarrow> nat" where
  "rows_with_email email tbl = length (filter (\<lambda>r. w_email r = Some email) tbl)"


section \<open>Freshness score (supabase-migration-hunt.sql)\<close>







section \<open>Pipeline stage display (admin pipeline page)\<close>

text \<open>
  \<open>type StageType = 'discovery' | 'crawl' | 'enrich' | 'embeddings'\<close>; at run time a stage
  identifier is the string.
\<close>

datatype StageType = discovery | crawl | enrich | embeddings

fun stage_string :: "StageType \<Rightarrow> string" where
  "stage_string discovery = ''discovery''"
| "stage_string crawl = ''crawl''"
| "stage_string enrich = ''enrich''"
| "stage_string embeddings = ''embeddings''"

record RunningPipelineRun =
  run_status :: string
  run_stage :: string

definition startsWith :: "string \<Rightarrow> string \<Rightarrow> bool" where
  "startsWith s p = (take (length p) s = p)"

text \<open>
  The first loop of \<open>isStageRunning\<close>, over \<open>Object.keys(runningOps)\<close> in their
  enumeration order; \<open>None\<close> is falling out of the loop.
\<close>

fun ops_loop :: "string \<Rightarrow> string list \<Rightarrow> bool option" where
  "ops_loop stageId [] = None"
| "ops_loop stageId (opType # rest) =
     (if opType = stageId then Some True
      else if startsWith opType (stageId @ ''_'') then Some True
      else if opType = ''full_pipeline'' then Some True
      else ops_loop stageId rest)"

text \<open>The second loop, over the database pipeline runs.\<close>

fun runs_loop :: "string \<Rightarrow> RunningPipelineRun list \<Rightarrow> bool option" where
  "runs_loop stageId [] = None"
| "runs_loop stageId (run # rest) =
     (if run_status run \<noteq> ''running'' then runs_loop stageId rest
      else if run_stage run = stageId then Some True
      else if startsWith (run_stage run) (stageId @ ''_'') then Some True
      else if run_stage run = ''detect_ats'' \<and> stageId = ''discovery'' then Some True
      else if run_stage run = ''custom_crawl'' \<and> stageId = ''crawl'' then Some True
      else runs_loop stageId rest)"

text \<open>
  \<open>runningOps\<close> is a \<open>Record<string, OperationStatus>\<close>: the list of its entries, keys in
  enumeration order. The operation's status is not read by the function.
\<close>

definition isStageRunning ::
    "StageType \<Rightarrow> (string \<times> 'op) list \<Rightarrow> RunningPipelineRun list \<Rightarrow> bool" where
  "isStageRunning stageId runningOps runningRuns =
     (case ops_loop (stage_string stageId) (map fst runningOps) of
        Some b \<Rightarrow> b
      | None \<Rightarrow>
          (case runs_loop (stage_string stageId) runningRuns of
             Some b \<Rightarrow> b
           | None \<Rightarrow> False))"


section \<open>Theorems\<close>

subsection \<open>Freshness score\<close>








subsection \<open>Pipeline stage display\<close>

lemma ops_loop_full_pipeline:
  "''full_pipeline'' \<in> set keys \<Longrightarrow> ops_loop stageId keys = Some True"
  by (induction keys) auto

text \<open>
  C10. For each of the four stages, when the running-operations map has the key
  \<open>full_pipeline\<close>, \<open>isStageRunning\<close> returns true, whatever else the map and the list of
  database runs hold.
\<close>

theorem isStageRunning_full_pipeline:
  "''full_pipeline'' \<in> fst ` set runningOps \<Longrightarrow> isStageRunning s runningOps runningRuns"
  using ops_loop_full_pipeline [of "map fst runningOps" "stage_string s"]
  by (simp add: isStageRunning_def)

theorem isStageRunning_full_pipeline_witness:
  "''full_pipeline'' \<in> fst ` set [(''full_pipeline'', ())]
   \<and> isStageRunning enrich [(''full_pipeline'', ())] []"
  using isStageRunning_full_pipeline [of "[(''full_pipeline'', ())]" enrich "[]"]
  by simp

subsection \<open>Three-valued conditions, ordering and limit\<close>

lemma nulls_last_le_total: "nulls_last_le a b \<or> nulls_last_le b a"
  by (cases a; cases b) auto

lemma nulls_last_le_trans: "nulls_last_le a b \<Longrightarrow> nulls_last_le b c \<Longrightarrow> nulls_last_le a c"
  by (cases a; cases b; cases c) auto

lemma set_insert_by: "set (insert_by key x xs) = insert x (set xs)"
  by (induction xs) auto

lemma set_order_by_asc: "set (order_by_asc key xs) = set xs"
  by (induction xs) (auto simp: set_insert_by)

lemma length_insert_by: "length (insert_by key x xs) = Suc (length xs)"
  by (induction xs) auto

lemma length_order_by_asc: "length (order_by_asc key xs) = length xs"
  by (induction xs) (auto simp: length_insert_by)

lemma sorted_insert_by:
  "sorted_wrt (\<lambda>a b. nulls_last_le (key a) (key b)) xs
    \<Longrightarrow> sorted_wrt (\<lambda>a b. nulls_last_le (key a) (key b)) (insert_by key x xs)"
proof (induction xs)
  case Nil
  then show ?case by simp
next
  case (Cons y ys)
  show ?case
  proof (cases "nulls_last_le (key x) (key y)")
    case True
    with Cons.prems show ?thesis
      by (auto intro: nulls_last_le_trans)
  next
    case False
    then have "nulls_last_le (key y) (key x)"
      using nulls_last_le_total by blast
    with False Cons show ?thesis
      by (auto simp: set_insert_by)
  qed
qed

lemma sorted_order_by_asc:
  "sorted_wrt (\<lambda>a b. nulls_last_le (key a) (key b)) (order_by_asc key xs)"
  by (induction xs) (auto simp: sorted_insert_by)


lemma sql_or_false: "(sql_or a b = Some False) = (a = Some False \<and> b = Some False)"
  by (induction a b rule: sql_or.induct) auto



subsection \<open>Similarity search\<close>








text \<open>What pgvector's operator gives: an error exactly on different dimensions.\<close>

lemma pgvector_cosine_distance_returns:
  "(\<exists>d. pgvector_cosine_distance a b = Inr d) = (length a = length b)"
  by (auto simp: pgvector_cosine_distance_def)







subsection \<open>Rows of the jobs table\<close>

lemma map_filter_Nil_iff: "(List.map_filter f xs = []) = (\<forall>x\<in>set xs. f x = None)"
  by (induction xs) (auto split: option.splits)

lemma jobs_row_error_assign: "jobs_row_error r = None \<Longrightarrow> jobs_row_error (jobs_assign r) = None"
  by (auto simp: jobs_row_error_def jobs_assign_def jobs_checks_def varchar100_ok_def
      varchar100_def split: if_splits option.splits)

lemma insert_job_Inr:
  "insert_job cs rs r tbl = Inr tbl'
    \<Longrightarrow> tbl' = tbl @ [jobs_assign r] \<and> jobs_row_error (jobs_assign r) = None"
  by (auto simp: insert_job_def jobs_row_error_assign split: option.splits if_splits)

lemma update_jobs_Inr:
  assumes "update_jobs now cs rs wh upd tbl = Inr tbl'"
  shows "tbl' = map (\<lambda>r. if wh r then jobs_assign (update_updated_at_column now (upd r))
                           else r) tbl"
    and "\<forall>r\<in>set tbl. wh r \<longrightarrow>
           jobs_row_error (jobs_assign (update_updated_at_column now (upd r))) = None"
proof -
  from assms have nil: "List.map_filter jobs_row_error
      (map (\<lambda>r. update_updated_at_column now (upd r)) (filter wh tbl)) = []"
    by (auto simp: update_jobs_def Let_def split: list.splits if_splits)
  from assms show "tbl' = map (\<lambda>r. if wh r then jobs_assign (update_updated_at_column now (upd r))
                                     else r) tbl"
    by (auto simp: update_jobs_def Let_def split: list.splits if_splits)
  from nil show "\<forall>r\<in>set tbl. wh r \<longrightarrow>
           jobs_row_error (jobs_assign (update_updated_at_column now (upd r))) = None"
    by (auto simp: map_filter_Nil_iff jobs_row_error_assign)
qed

lemma jobs_reachable_rows:
  "jobs_reachable W tbl \<Longrightarrow> r \<in> set tbl \<Longrightarrow> W r \<and> jobs_row_error r = None"
proof (induction arbitrary: r rule: jobs_reachable.induct)
  case jobs_empty
  then show ?case by simp
next
  case (jobs_insert tbl x companies jobs_raw tbl')
  from insert_job_Inr [OF jobs_insert.hyps(3)] jobs_insert show ?case by auto
next
  case (jobs_update tbl wh now upd companies jobs_raw tbl')
  from update_jobs_Inr [OF jobs_update.hyps(3)] jobs_update show ?case
    by (auto split: if_splits)
next
  case (jobs_delete tbl wh)
  then show ?case by (auto simp: delete_jobs_def)
qed

lemma jobs_row_error_vector: "jobs_row_error r = None \<Longrightarrow> vector384_ok (embedding r)"
  by (auto simp: jobs_row_error_def split: if_splits)

lemma job_row_assign: "jobs_assign (job_row i lo hi emb act) = job_row i lo hi emb act"
  by (simp add: jobs_assign_def job_row_def varchar100_def)

lemma job_row_ok:
  "vector384_ok emb \<Longrightarrow> int4_ok lo \<Longrightarrow> int4_ok hi \<Longrightarrow> jobs_row_error (job_row i lo hi emb act) = None"
  by (simp add: jobs_row_error_def job_row_def  varchar100_ok_def jobs_checks_def
      check_passes_def role_family_values_def seniority_values_def)

lemma insert_job_row_empty:
  "vector384_ok emb \<Longrightarrow> int4_ok lo \<Longrightarrow> int4_ok hi \<Longrightarrow>
   insert_job cs rs (job_row i lo hi emb act) [] = Inr [job_row i lo hi emb act]"
proof -
  assume "vector384_ok emb" "int4_ok lo" "int4_ok hi"
  then have "jobs_row_error (job_row i lo hi emb act) = None" by (rule job_row_ok)
  moreover have "jobs_unique [job_row i lo hi emb act]"
    by (simp add: jobs_unique_def split: option.splits)
  moreover have "jobs_fk_ok cs rs (job_row i lo hi emb act)"
    by (simp add: jobs_fk_ok_def references_ok_def job_row_def)
  ultimately show ?thesis by (simp add: insert_job_def job_row_assign)
qed

text \<open>
  C3, as stated, fails: the table declares no constraint between \<open>min_salary\<close> and
  \<open>max_salary\<close>, and the insert of a row with \<open>min_salary = 200000\<close> and
  \<open>max_salary = 100000\<close> into the empty table succeeds.
\<close>

theorem jobs_salary_counterexample:
  "jobs_reachable unconstrained [job_row 1 (Some 200000) (Some 100000) None (Some True)]
   \<and> \<not> salary_ordered (job_row 1 (Some 200000) (Some 100000) None (Some True))"
proof -
  have "insert_job [] [] (job_row 1 (Some 200000) (Some 100000) None (Some True)) []
         = Inr [job_row 1 (Some 200000) (Some 100000) None (Some True)]"
    by (rule insert_job_row_empty) (simp_all add: vector384_ok_def int4_ok_def)
  then have "jobs_reachable unconstrained [job_row 1 (Some 200000) (Some 100000) None (Some True)]"
    using jobs_insert [OF jobs_empty, of unconstrained]
    by (simp add: unconstrained_def)
  moreover have "\<not> salary_ordered (job_row 1 (Some 200000) (Some 100000) None (Some True))"
    by (simp add: salary_ordered_def job_row_def)
  ultimately show ?thesis by simp
qed


text \<open>
  C3, amended. In every state of the jobs table reached by inserts and updates that write
  only rows with \<open>min_salary \<le> max_salary\<close> (where both are present), every row that has
  both has \<open>min_salary \<le> max_salary\<close>. The order is kept by the writers, not by the schema.
\<close>

theorem jobs_salary_ordered_if_written_so:
  "jobs_reachable salary_ordered tbl \<Longrightarrow> r \<in> set tbl
    \<Longrightarrow> min_salary r = Some lo \<Longrightarrow> max_salary r = Some hi \<Longrightarrow> lo \<le> hi"
  using jobs_reachable_rows [of salary_ordered tbl r]
  by (simp add: salary_ordered_def)

theorem jobs_salary_ordered_if_written_so_witness:
  "jobs_reachable salary_ordered [job_row 1 (Some 100000) (Some 150000) None (Some True)]
   \<and> job_row 1 (Some 100000) (Some 150000) None (Some True)
       \<in> set [job_row 1 (Some 100000) (Some 150000) None (Some True)]
   \<and> min_salary (job_row 1 (Some 100000) (Some 150000) None (Some True)) = Some 100000
   \<and> max_salary (job_row 1 (Some 100000) (Some 150000) None (Some True)) = Some 150000
   \<and> (100000::int) \<le> 150000"
proof -
  have "insert_job [] [] (job_row 1 (Some 100000) (Some 150000) None (Some True)) []
         = Inr [job_row 1 (Some 100000) (Some 150000) None (Some True)]"
    by (rule insert_job_row_empty) (simp_all add: vector384_ok_def int4_ok_def)
  moreover have "salary_ordered
      (jobs_assign (job_row 1 (Some 100000) (Some 150000) None (Some True)))"
    by (simp add: job_row_assign) (simp add: salary_ordered_def job_row_def)
  ultimately have r: "jobs_reachable salary_ordered
      [job_row 1 (Some 100000) (Some 150000) None (Some True)]"
    using jobs_insert [OF jobs_empty, of salary_ordered] by blast
  have lo: "min_salary (job_row 1 (Some 100000) (Some 150000) None (Some True)) = Some 100000"
    and hi: "max_salary (job_row 1 (Some 100000) (Some 150000) None (Some True)) = Some 150000"
    by (simp_all add: job_row_def)
  from jobs_salary_ordered_if_written_so [OF r _ lo hi] r lo hi show ?thesis by simp
qed

subsection \<open>Embedding dimension\<close>

lemma insert_candidate_profile_Inr:
  "insert_candidate_profile ws r tbl = Inr tbl'
    \<Longrightarrow> tbl' = tbl @ [r] \<and> candidate_profiles_row_error r = None"
  by (auto simp: insert_candidate_profile_def split: option.splits if_splits)

lemma update_candidate_profiles_Inr:
  assumes "update_candidate_profiles now ws wh upd tbl = Inr tbl'"
  shows "tbl' = map (\<lambda>r. if wh r then cp_update_updated_at_column now (upd r) else r) tbl"
    and "\<forall>r\<in>set tbl. wh r \<longrightarrow>
           candidate_profiles_row_error (cp_update_updated_at_column now (upd r)) = None"
proof -
  from assms have nil: "List.map_filter candidate_profiles_row_error
      (map (\<lambda>r. cp_update_updated_at_column now (upd r)) (filter wh tbl)) = []"
    by (auto simp: update_candidate_profiles_def Let_def split: list.splits if_splits)
  from assms show "tbl' = map (\<lambda>r. if wh r then cp_update_updated_at_column now (upd r) else r) tbl"
    by (auto simp: update_candidate_profiles_def Let_def split: list.splits if_splits)
  from nil show "\<forall>r\<in>set tbl. wh r \<longrightarrow>
           candidate_profiles_row_error (cp_update_updated_at_column now (upd r)) = None"
    by (auto simp: map_filter_Nil_iff)
qed

lemma candidate_profiles_reachable_rows:
  "candidate_profiles_reachable tbl \<Longrightarrow> r \<in> set tbl \<Longrightarrow> candidate_profiles_row_error r = None"
proof (induction arbitrary: r rule: candidate_profiles_reachable.induct)
  case cp_empty
  then show ?case by simp
next
  case (cp_insert tbl waitlist x tbl')
  from insert_candidate_profile_Inr [OF cp_insert.hyps(2)] cp_insert show ?case by auto
next
  case (cp_update tbl now waitlist wh upd tbl')
  from update_candidate_profiles_Inr [OF cp_update.hyps(2)] cp_update show ?case
    by (auto split: if_splits)
next
  case (cp_delete tbl wh)
  then show ?case by (auto simp: delete_candidate_profiles_def)
qed

lemma candidate_profiles_row_error_vector:
  "candidate_profiles_row_error r = None \<Longrightarrow> vector384_ok (cp_embedding r)"
  by (auto simp: candidate_profiles_row_error_def split: if_splits)

text \<open>
  C8. In every state of the jobs table and of the candidate_profiles table, an embedding
  that is present has exactly 384 components; an insert that carries an embedding of
  another dimension is refused.
\<close>

theorem embedding_dimension_384:
  "(jobs_reachable W tbl \<longrightarrow> (\<forall>r\<in>set tbl. \<forall>v. embedding r = Some v \<longrightarrow> length v = 384))
   \<and> (candidate_profiles_reachable cps
        \<longrightarrow> (\<forall>c\<in>set cps. \<forall>v. cp_embedding c = Some v \<longrightarrow> length v = 384))
   \<and> (\<forall>v. embedding r = Some v \<and> length v \<noteq> 384
        \<longrightarrow> insert_job companies jobs_raw r tbl = Inl data_exception)
   \<and> (\<forall>v. cp_embedding c = Some v \<and> length v \<noteq> 384
        \<longrightarrow> insert_candidate_profile waitlist c cps = Inl data_exception)"
proof -
  have "length v = 384" if "jobs_reachable W tbl" "x \<in> set tbl" "embedding x = Some v" for x v
    using jobs_row_error_vector [of x] jobs_reachable_rows [OF that(1,2)] that(3)
    by (simp add: vector384_ok_def)
  moreover have "length v = 384"
    if "candidate_profiles_reachable cps" "x \<in> set cps" "cp_embedding x = Some v" for x v
    using candidate_profiles_row_error_vector [of x]
      candidate_profiles_reachable_rows [OF that(1,2)] that(3)
    by (simp add: vector384_ok_def)
  moreover have "insert_job companies jobs_raw r tbl = Inl data_exception"
    if "embedding r = Some v" "length v \<noteq> 384" for v
    using that by (simp add: insert_job_def jobs_row_error_def vector384_ok_def)
  moreover have "insert_candidate_profile waitlist c cps = Inl data_exception"
    if "cp_embedding c = Some v" "length v \<noteq> 384" for v
    using that
    by (simp add: insert_candidate_profile_def candidate_profiles_row_error_def vector384_ok_def)
  ultimately show ?thesis by blast
qed

lemma candidate_profile_row_ok:
  "vector384_ok emb \<Longrightarrow> candidate_profiles_row_error (candidate_profile_row i email emb) = None"
  by (simp add: candidate_profiles_row_error_def candidate_profile_row_def int4_ok_def
      candidate_profiles_checks_def check_passes_def seniority_values_def contained_by_def)

lemma insert_candidate_profile_row_empty:
  assumes "vector384_ok emb"
  shows "insert_candidate_profile ws (candidate_profile_row i email emb) []
          = Inr [candidate_profile_row i email emb]"
proof -
  have "candidate_profiles_unique [candidate_profile_row i email emb]"
    by (simp add: candidate_profiles_unique_def split: option.splits)
  moreover have "references_ok ws (cp_waitlist_id (candidate_profile_row i email emb))"
    by (simp add: references_ok_def candidate_profile_row_def)
  ultimately show ?thesis
    using candidate_profile_row_ok [OF assms] by (simp add: insert_candidate_profile_def)
qed

theorem embedding_dimension_384_witness:
  "jobs_reachable unconstrained [job_row 1 None None (Some (replicate 384 0)) (Some True)]
   \<and> candidate_profiles_reachable [candidate_profile_row 1 ''ada@example.com'' (Some (replicate 384 0))]
   \<and> length (replicate 384 (0::real)) = 384
   \<and> insert_job [] [] (job_row 2 None None (Some [1, 0, 0]) (Some True)) [] = Inl data_exception
   \<and> insert_candidate_profile [] (candidate_profile_row 2 ''bob@example.com'' (Some [1, 0, 0])) []
       = Inl data_exception"
proof -
  have "insert_job [] [] (job_row 1 None None (Some (replicate 384 0)) (Some True)) []
         = Inr [job_row 1 None None (Some (replicate 384 0)) (Some True)]"
    by (rule insert_job_row_empty) (simp_all add: vector384_ok_def int4_ok_def)
  then have j: "jobs_reachable unconstrained [job_row 1 None None (Some (replicate 384 0)) (Some True)]"
    using jobs_insert [OF jobs_empty, of unconstrained]
    by (simp add: unconstrained_def)
  have "insert_candidate_profile [] (candidate_profile_row 1 ''ada@example.com'' (Some (replicate 384 0))) []
         = Inr [candidate_profile_row 1 ''ada@example.com'' (Some (replicate 384 0))]"
    by (rule insert_candidate_profile_row_empty) (simp add: vector384_ok_def)
  then have c: "candidate_profiles_reachable
      [candidate_profile_row 1 ''ada@example.com'' (Some (replicate 384 0))]"
    using cp_insert [OF cp_empty] by simp
  have e1: "embedding (job_row 2 None None (Some [1, 0, 0]) (Some True)) = Some [1, 0, 0]"
    by (simp add: job_row_def)
  have e2: "cp_embedding (candidate_profile_row 2 ''bob@example.com'' (Some [1, 0, 0])) = Some [1, 0, 0]"
    by (simp add: candidate_profile_row_def)
  from embedding_dimension_384
    [of unconstrained "[job_row 1 None None (Some (replicate 384 0)) (Some True)]"
        "[candidate_profile_row 1 ''ada@example.com'' (Some (replicate 384 0))]"]
    embedding_dimension_384
    [of unconstrained "[]" "[]" "job_row 2 None None (Some [1, 0, 0]) (Some True)" "[]" "[]"
        "candidate_profile_row 2 ''bob@example.com'' (Some [1, 0, 0])" "[]"]
    j c e1 e2
  show ?thesis by simp
qed

subsection \<open>Uniqueness of matches\<close>

lemma map_filter_append: "List.map_filter f (xs @ ys) = List.map_filter f xs @ List.map_filter f ys"
  by (simp add: List.map_filter_def)

lemma distinct_map_filter_filter:
  "distinct (List.map_filter f xs) \<Longrightarrow> distinct (List.map_filter f (filter P xs))"
  by (induction xs) (auto simp: split: option.splits, auto simp: List.map_filter_def)

lemma distinct_map_filter_count:
  "distinct (List.map_filter f xs) \<Longrightarrow> length (filter (\<lambda>x. f x = Some k) xs) \<le> 1"
proof (induction xs)
  case Nil
  then show ?case by simp
next
  case (Cons x xs)
  show ?case
  proof (cases "f x = Some k")
    case True
    with Cons.prems have "k \<notin> set (List.map_filter f xs)" by simp
    then have "filter (\<lambda>x. f x = Some k) xs = []"
      by (auto simp: List.map_filter_def filter_empty_conv image_iff) 
    with True show ?thesis by simp
  next
    case False
    with Cons show ?thesis by (auto split: option.splits)
  qed
qed

lemma matches_unique_key_Some:
  "(matches_unique_key r = Some (c, j)) = (m_candidate_id r = Some c \<and> m_job_id r = Some j)"
  by (auto simp: matches_unique_key_def split: option.splits)

lemma insert_match_Inr:
  "insert_match cs js r tbl = Inr tbl' \<Longrightarrow> tbl' = tbl @ [r] \<and> matches_unique tbl'"
  by (auto simp: insert_match_def split: option.splits if_splits)

lemma update_matches_Inr:
  "update_matches cs js wh upd tbl = Inr tbl' \<Longrightarrow> matches_unique tbl'"
  by (auto simp: update_matches_def Let_def split: list.splits if_splits)

lemma matches_reachable_unique: "matches_reachable tbl \<Longrightarrow> matches_unique tbl"
proof (induction rule: matches_reachable.induct)
  case matches_empty
  then show ?case by (simp add: matches_unique_def)
next
  case (matches_insert tbl candidates jobs r tbl')
  then show ?case using insert_match_Inr by blast
next
  case (matches_update tbl candidates jobs wh upd tbl')
  then show ?case using update_matches_Inr by blast
next
  case (matches_delete tbl wh)
  then show ?case
    by (simp add: matches_unique_def delete_matches_def distinct_map_filter
        distinct_map_filter_filter)
qed

lemma pair_count_key:
  "pair_count (Some c) (Some j) tbl = length (filter (\<lambda>r. matches_unique_key r = Some (c, j)) tbl)"
  by (simp add: pair_count_def matches_unique_key_Some)

lemma match_row_sel:
  "m_id (match_row i c j s) = i" "m_candidate_id (match_row i c j s) = c"
  "m_job_id (match_row i c j s) = j" "m_score (match_row i c j s) = Some s"
  by (simp_all add: match_row_def)

lemma match_row_ok: "0 \<le> s \<Longrightarrow> s \<le> 1 \<Longrightarrow> matches_row_error (match_row i c j s) = None"
  by (simp add: matches_row_error_def match_row_def check_passes_def)

lemma two_null_candidate_rows:
  "insert_match [] [7] (match_row 1 None (Some 7) 0.9) [] = Inr [match_row 1 None (Some 7) 0.9]"
  "insert_match [] [7] (match_row 2 None (Some 7) 0.8) [match_row 1 None (Some 7) 0.9]
     = Inr [match_row 1 None (Some 7) 0.9, match_row 2 None (Some 7) 0.8]"
  by (simp_all add: insert_match_def match_row_ok matches_unique_def matches_fk_ok_def
      references_ok_def matches_unique_key_def match_row_sel)

lemma one_match_row:
  "insert_match [3] [7] (match_row 1 (Some 3) (Some 7) 0.9) []
     = Inr [match_row 1 (Some 3) (Some 7) 0.9]"
  by (simp add: insert_match_def match_row_ok matches_unique_def matches_fk_ok_def
      references_ok_def matches_unique_key_def match_row_sel)

text \<open>
  C4, as stated, fails: \<open>candidate_id\<close> and \<open>job_id\<close> are nullable and the unique
  constraint does not apply to a row that has a \<open>NULL\<close> in either. Two inserts of a match
  for job 7 with no candidate both succeed, and the pair (\<open>NULL\<close>, 7) is then in two rows.
\<close>

theorem matches_pair_counterexample:
  "matches_reachable [match_row 1 None (Some 7) 0.9, match_row 2 None (Some 7) 0.8]
   \<and> pair_count None (Some 7) [match_row 1 None (Some 7) 0.9, match_row 2 None (Some 7) 0.8] = 2"
proof -
  have "matches_reachable [match_row 1 None (Some 7) 0.9]"
    using matches_insert [OF matches_empty two_null_candidate_rows(1)] .
  then have "matches_reachable [match_row 1 None (Some 7) 0.9, match_row 2 None (Some 7) 0.8]"
    using matches_insert [OF _ two_null_candidate_rows(2)] by blast
  moreover have "pair_count None (Some 7)
      [match_row 1 None (Some 7) 0.9, match_row 2 None (Some 7) 0.8] = 2"
    by (simp add: pair_count_def match_row_sel)
  ultimately show ?thesis by simp
qed

text \<open>
  C4, amended. In every state of the matches table a pair of a \<open>candidate_id\<close> and a
  \<open>job_id\<close> that are both present is in at most one row, and when it is in one, the insert
  of another row with that pair fails and leaves the table as it is.
\<close>

theorem matches_pair_unique_when_present:
  assumes "matches_reachable tbl"
  shows "pair_count (Some c) (Some j) tbl \<le> 1
         \<and> (pair_count (Some c) (Some j) tbl = 1 \<and> m_candidate_id r = Some c \<and> m_job_id r = Some j
              \<longrightarrow> (\<exists>e. insert_match candidates jobs r tbl = Inl e))"
proof -
  from matches_reachable_unique [OF assms]
  have d: "distinct (List.map_filter matches_unique_key tbl)"
    by (simp add: matches_unique_def)
  have le: "pair_count (Some c) (Some j) tbl \<le> 1"
    unfolding pair_count_key using d by (rule distinct_map_filter_count)
  have "\<exists>e. insert_match candidates jobs r tbl = Inl e"
    if one: "pair_count (Some c) (Some j) tbl = 1"
      and r: "m_candidate_id r = Some c" "m_job_id r = Some j"
  proof -
    from one have "filter (\<lambda>r. matches_unique_key r = Some (c, j)) tbl \<noteq> []"
      unfolding pair_count_key by auto
    then obtain x where "x \<in> set tbl" "matches_unique_key x = Some (c, j)"
      by (auto simp: filter_empty_conv)
    then have "(c, j) \<in> set (List.map_filter matches_unique_key tbl)"
      by (force simp: List.map_filter_def)
    moreover from r have "matches_unique_key r = Some (c, j)"
      by (simp add: matches_unique_key_Some)
    ultimately have "\<not> matches_unique (tbl @ [r])"
      by (simp add: matches_unique_def map_filter_append)
    then show ?thesis
      by (simp add: insert_match_def split: option.splits)
  qed
  with le show ?thesis by blast
qed

theorem matches_pair_unique_when_present_witness:
  "matches_reachable [match_row 1 (Some 3) (Some 7) 0.9]
   \<and> pair_count (Some 3) (Some 7) [match_row 1 (Some 3) (Some 7) 0.9] = 1
   \<and> insert_match [3] [7] (match_row 2 (Some 3) (Some 7) 0.5) [match_row 1 (Some 3) (Some 7) 0.9]
       = Inl unique_violation"
proof -
  have r: "matches_reachable [match_row 1 (Some 3) (Some 7) 0.9]"
    using matches_insert [OF matches_empty one_match_row] .
  have c: "pair_count (Some 3) (Some 7) [match_row 1 (Some 3) (Some 7) 0.9] = 1"
    by (simp add: pair_count_def match_row_sel)
  have k: "m_candidate_id (match_row 2 (Some 3) (Some 7) 0.5) = Some 3"
      "m_job_id (match_row 2 (Some 3) (Some 7) 0.5) = Some 7"
    by (simp_all add: match_row_sel)
  from matches_pair_unique_when_present [OF r, of 3 7 "match_row 2 (Some 3) (Some 7) 0.5" "[3]" "[7]"] c k
  obtain e where e: "insert_match [3] [7] (match_row 2 (Some 3) (Some 7) 0.5)
      [match_row 1 (Some 3) (Some 7) 0.9] = Inl e" by blast
  have "matches_row_error (match_row 2 (Some 3) (Some 7) 0.5) = None"
    by (rule match_row_ok) simp_all
  with e have "e = unique_violation"
    by (auto simp: insert_match_def matches_unique_def matches_unique_key_def match_row_sel
        split: if_splits)
  with e r c show ?thesis by simp
qed

subsection \<open>The waitlist form\<close>

lemma insert_waitlist_duplicate:
  assumes "x \<in> set tbl" "w_email x = Some email" "w_email r = Some email" "w_name r \<noteq> None"
  shows "insert_waitlist r tbl = Inl unique_violation"
proof -
  from assms(1,2) have "email \<in> set (List.map_filter w_email tbl)"
    by (force simp: List.map_filter_def)
  then have "\<not> waitlist_unique (tbl @ [r])"
    using assms(3) by (simp add: waitlist_unique_def map_filter_append)
  with assms(3,4) show ?thesis
    by (auto simp: insert_waitlist_def waitlist_row_error_def)
qed

text \<open>
  As the owner of the table or as \<open>service_role\<close>, neither subject to the policies, the
  insert of an email that is already on the list fails on the unique index, and that is
  the error for which \<open>handleSubmit\<close> has its message.
\<close>

lemma insert_waitlist_returning_duplicate:
  "x \<in> set tbl \<Longrightarrow> w_email x = Some email \<Longrightarrow> w_email r = Some email \<Longrightarrow> w_name r \<noteq> None
    \<Longrightarrow> insert_waitlist_returning service_role r tbl = Inl unique_violation"
  by (simp add: insert_waitlist_returning_def bypasses_rls_def insert_waitlist_duplicate)

lemma after_insert_duplicate:
  "error_text (after_insert (InsertError (sqlstate unique_violation)) st)
     = ''This email is already on the waitlist!''
   \<and> onSuccess_calls (after_insert (InsertError (sqlstate unique_violation)) st)
     = onSuccess_calls st"
  by (simp add: after_insert_def)

text \<open>
  As \<open>anon\<close> the statement is refused for every row: no policy for \<open>SELECT\<close> is declared,
  and the statement returns the id.
\<close>

lemma waitlist_insert_select_id_refused:
  "waitlist_insert_select_id new_id now name email tbl = (InsertError ''42501'', tbl)"
  by (simp add: waitlist_insert_select_id_def insert_waitlist_returning_def bypasses_rls_def
      admitted_def waitlist_select_policies_def)

lemma handleSubmit_refused:
  "handleSubmit new_id now name email st
     = st\<lparr>error_text := ''Something went wrong. Please try again.'', isLoading := False\<rparr>"
  by (simp add: handleSubmit_def waitlist_insert_select_id_refused after_insert_def)

text \<open>
  C9. The claim: when a row of the waitlist already has the submitted email, the insert
  fails with the code 23505, \<open>handleSubmit\<close> leaves the message "This email is already on
  the waitlist!", does not call \<open>onSuccess\<close>, and no second row is made. The code, on a
  submission of an email that is on the list: the insert is refused by row-level security
  with the code 42501 before the unique index is consulted, and the form shows "Something
  went wrong. Please try again."; \<open>onSuccess\<close> is not called and the table is unchanged.
\<close>

theorem handleSubmit_duplicate_email_refused:
  "fst (waitlist_insert_select_id 2 5 ''Ada L'' ''ada@example.com''
         [\<lparr>w_id = 1, w_name = Some ''Ada'', w_email = Some ''ada@example.com'',
           w_created_at = Some 0\<rparr>])
     = InsertError ''42501''
   \<and> handleSubmit 2 5 ''Ada L'' ''ada@example.com''
        \<lparr>error_text = [], isLoading = False, onSuccess_calls = [],
         waitlist_rows = [\<lparr>w_id = 1, w_name = Some ''Ada'', w_email = Some ''ada@example.com'',
                           w_created_at = Some 0\<rparr>]\<rparr>
      = \<lparr>error_text = ''Something went wrong. Please try again.'', isLoading = False,
         onSuccess_calls = [],
         waitlist_rows = [\<lparr>w_id = 1, w_name = Some ''Ada'', w_email = Some ''ada@example.com'',
                           w_created_at = Some 0\<rparr>]\<rparr>"
  by (simp add: handleSubmit_refused waitlist_insert_select_id_refused)

subsection \<open>Failing a discovery item\<close>

lemma map_update_distinct:
  assumes "distinct (map f xs)" "i < length xs"
  shows "map (\<lambda>r. if f r = f (xs ! i) then g r else r) xs = xs[i := g (xs ! i)]"
proof (rule nth_equalityI)
  show "length (map (\<lambda>r. if f r = f (xs ! i) then g r else r) xs) = length (xs[i := g (xs ! i)])"
    by simp
next
  fix k assume "k < length (map (\<lambda>r. if f r = f (xs ! i) then g r else r) xs)"
  then have k: "k < length xs" by simp
  have "(f (xs ! k) = f (xs ! i)) = (k = i)"
    using assms k nth_eq_iff_index_eq [of "map f xs" k i] by auto
  with k show "map (\<lambda>r. if f r = f (xs ! i) then g r else r) xs ! k = xs[i := g (xs ! i)] ! k"
    by (auto simp: nth_list_update)
qed

lemma filter_distinct_nth:
  assumes "distinct (map f xs)" "i < length xs"
  shows "filter (\<lambda>r. f r = f (xs ! i)) xs = [xs ! i]"
  using assms
proof (induction xs arbitrary: i)
  case Nil
  then show ?case by simp
next
  case (Cons x xs)
  show ?case
  proof (cases i)
    case 0
    from Cons.prems have "\<forall>y\<in>set xs. f y \<noteq> f x" by (auto simp: image_iff)
    with 0 show ?thesis by (simp add: filter_empty_conv)
  next
    case (Suc k)
    with Cons.prems have "xs ! k \<in> set xs" by simp
    with Cons.prems have "f (xs ! k) \<noteq> f x" by (auto simp: image_iff)
    with Suc Cons show ?thesis by auto
  qed
qed

lemma is_true_Some: "is_true (Some b) = b"
  by (simp add: is_true_def)

lemma fail_row_id: "dq_id (fail_row now msg r) = dq_id r"
  by (simp add: fail_row_def)

lemma fail_row_eq:
  "fail_row now msg r
    = r\<lparr>dq_status := Some (if (\<exists>n. dq_retry_count r = Some n \<and> 3 \<le> n)
                            then ''failed'' else ''pending''),
        dq_error_message := msg,
        dq_retry_count := map_option (\<lambda>n. n + 1) (dq_retry_count r),
        dq_processed_at := Some now\<rparr>"
  by (cases "dq_retry_count r") (simp_all add: fail_row_def is_true_def)

lemma fail_discovery_item_at:
  assumes "distinct (map dq_id q)" "i < length q"
    "int4_ok (map_option (\<lambda>n. n + 1) (dq_retry_count (q ! i)))"
  shows "fail_discovery_item now (Some (dq_id (q ! i))) msg q
          = Inr (q[i := fail_row now msg (q ! i)])"
proof -
  have "int4_ok (dq_retry_count (fail_row now msg r))"
    if "r \<in> set q" "dq_id r = dq_id (q ! i)" for r
  proof -
    from that assms(1,2) have "r = q ! i"
      by (metis distinct_map inj_on_eq_iff nth_mem)
    with assms(3) show ?thesis by (simp add: fail_row_def)
  qed
  then show ?thesis
    using map_update_distinct [OF assms(1,2), of "fail_row now msg"]
    by (auto simp: fail_discovery_item_def is_true_Some Let_def)
qed

lemma map_id_update:
  "i < length q \<Longrightarrow> dq_id r = dq_id (q ! i) \<Longrightarrow> map dq_id (q[i := r]) = map dq_id q"
  by (simp add: map_update list_update_same_conv)

lemma fail_repeatedly_at:
  assumes "distinct (map dq_id q)" "i < length q" "dq_retry_count (q ! i) = Some n"
    "- 2147483648 \<le> n" "n + int (length fails) \<le> 2147483647" "fails \<noteq> []"
  shows "\<exists>q'. fail_repeatedly fails (Some (dq_id (q ! i))) q = Inr q'
          \<and> dq_retry_count (q' ! i) = Some (n + int (length fails))
          \<and> dq_status (q' ! i)
              = Some (if 4 \<le> n + int (length fails) then ''failed'' else ''pending'')"
  using assms
proof (induction fails arbitrary: q n)
  case Nil
  then show ?case by simp
next
  case (Cons a rest)
  obtain now msg where a: "a = (now, msg)" by (cases a)
  define q1 where "q1 = q[i := fail_row now msg (q ! i)]"
  from Cons.prems have step: "fail_discovery_item now (Some (dq_id (q ! i))) msg q = Inr q1"
    unfolding q1_def by (intro fail_discovery_item_at) (auto simp: int4_ok_def)
  have ids: "map dq_id q1 = map dq_id q"
    unfolding q1_def using Cons.prems(2) by (simp add: map_id_update fail_row_id)
  have len: "i < length q1" using Cons.prems(2) by (simp add: q1_def)
  have at: "q1 ! i = fail_row now msg (q ! i)" using Cons.prems(2) by (simp add: q1_def)
  have id: "dq_id (q1 ! i) = dq_id (q ! i)" by (simp add: at fail_row_id)
  have rc: "dq_retry_count (q1 ! i) = Some (n + 1)"
    using Cons.prems(3) by (simp add: at fail_row_eq)
  have st: "dq_status (q1 ! i) = Some (if 3 \<le> n then ''failed'' else ''pending'')"
    using Cons.prems(3) by (simp add: at fail_row_eq)
  show ?case
  proof (cases "rest = []")
    case True
    with step rc st a show ?thesis by simp
  next
    case False
    from Cons.prems have "distinct (map dq_id q1)" by (simp add: ids)
    from Cons.IH [OF this len rc _ _ False] Cons.prems(4,5)
    obtain q' where "fail_repeatedly rest (Some (dq_id (q1 ! i))) q1 = Inr q'"
      "dq_retry_count (q' ! i) = Some (n + 1 + int (length rest))"
      "dq_status (q' ! i)
         = Some (if 4 \<le> n + 1 + int (length rest) then ''failed'' else ''pending'')"
      by auto
    with step a id show ?thesis by (simp add: add.assoc)
  qed
qed

lemma queue_item_sel:
  "dq_id (queue_item i st rc created) = i"
  "dq_status (queue_item i st rc created) = Some st"
  "dq_retry_count (queue_item i st rc created) = rc"
  "dq_created_at (queue_item i st rc created) = created"
  by (simp_all add: queue_item_def)

lemma fail_repeatedly_null:
  assumes "distinct (map dq_id q)" "i < length q" "dq_retry_count (q ! i) = None"
    "fails \<noteq> []"
  shows "\<exists>q'. fail_repeatedly fails (Some (dq_id (q ! i))) q = Inr q'
          \<and> dq_retry_count (q' ! i) = None \<and> dq_status (q' ! i) = Some ''pending''"
  using assms
proof (induction fails arbitrary: q)
  case Nil
  then show ?case by simp
next
  case (Cons a rest)
  obtain now msg where a: "a = (now, msg)" by (cases a)
  define q1 where "q1 = q[i := fail_row now msg (q ! i)]"
  from Cons.prems have step: "fail_discovery_item now (Some (dq_id (q ! i))) msg q = Inr q1"
    unfolding q1_def by (intro fail_discovery_item_at) (auto simp: int4_ok_def)
  have ids: "map dq_id q1 = map dq_id q"
    unfolding q1_def using Cons.prems(2) by (simp add: map_id_update fail_row_id)
  have len: "i < length q1" using Cons.prems(2) by (simp add: q1_def)
  have at: "q1 ! i = fail_row now msg (q ! i)" using Cons.prems(2) by (simp add: q1_def)
  have id: "dq_id (q1 ! i) = dq_id (q ! i)" by (simp add: at fail_row_id)
  have rc: "dq_retry_count (q1 ! i) = None"
    using Cons.prems(3) by (simp add: at fail_row_eq)
  have st: "dq_status (q1 ! i) = Some ''pending''"
    using Cons.prems(3) by (simp add: at fail_row_eq)
  show ?case
  proof (cases "rest = []")
    case True
    with step rc st a show ?thesis by simp
  next
    case False
    from Cons.prems have "distinct (map dq_id q1)" by (simp add: ids)
    from Cons.IH [OF this len rc False]
    obtain q' where "fail_repeatedly rest (Some (dq_id (q1 ! i))) q1 = Inr q'"
      "dq_retry_count (q' ! i) = None" "dq_status (q' ! i) = Some ''pending''"
      by auto
    with step a id show ?thesis by simp
  qed
qed

text \<open>
  C5, as stated, fails for an item whose \<open>retry_count\<close> is \<open>NULL\<close>, which the column
  admits: \<open>NULL >= 3\<close> is not true and \<open>NULL + 1\<close> is \<open>NULL\<close>, so the count is not
  incremented and the item goes back to \<open>pending\<close> at every failure. Here it has failed
  four times.
\<close>

theorem fail_discovery_item_null_count_counterexample:
  "fail_repeatedly [(11, None), (12, None), (13, None), (14, Some ''timeout'')] (Some 1)
      [queue_item 1 ''processing'' None (Some 10)]
     = Inr [(queue_item 1 ''processing'' None (Some 10))
              \<lparr>dq_status := Some ''pending'', dq_error_message := Some ''timeout'',
               dq_retry_count := None, dq_processed_at := Some 14\<rparr>]"
  by (simp add: fail_discovery_item_def fail_row_def is_true_def int4_ok_def queue_item_def)

text \<open>
  C5, amended. \<open>fail_discovery_item\<close> sets the status of the item to \<open>failed\<close> exactly
  when its retry count before the call is not \<open>NULL\<close> and at least 3, and to \<open>pending\<close>
  otherwise; in both cases it records the message and the time and sets the retry count
  to \<open>retry_count + 1\<close>, which leaves a \<open>NULL\<close> count \<open>NULL\<close>. After \<open>k \<ge> 1\<close> failures in
  a row an item that had the retry count \<open>n\<close> has the count \<open>n + k\<close> and is \<open>failed\<close>
  exactly when \<open>n + k \<ge> 4\<close>. So an item that enters the queue with the default count 0
  goes back to \<open>pending\<close> after its first, second and third failure, which gives it three
  retries, and is \<open>failed\<close> after the fourth; an item with a count from 1 to 3 is \<open>failed\<close>
  sooner, one with a negative count later, and one with a \<open>NULL\<close> count never.
\<close>

theorem fail_discovery_item_retry_cap:
  assumes "distinct (map dq_id q)" "i < length q"
    "int4_ok (dq_retry_count (q ! i))"
    "int4_ok (map_option (\<lambda>n. n + 1) (dq_retry_count (q ! i)))"
  shows "fail_discovery_item now (Some (dq_id (q ! i))) msg q
           = Inr (q[i := (q ! i)
                    \<lparr>dq_status := Some (if (\<exists>n. dq_retry_count (q ! i) = Some n \<and> 3 \<le> n)
                                        then ''failed'' else ''pending''),
                     dq_error_message := msg,
                     dq_retry_count := map_option (\<lambda>n. n + 1) (dq_retry_count (q ! i)),
                     dq_processed_at := Some now\<rparr>])
         \<and> (\<forall>n. dq_retry_count (q ! i) = Some n \<and> fails \<noteq> []
                  \<and> n + int (length fails) \<le> 2147483647 \<longrightarrow>
              (\<exists>q'. fail_repeatedly fails (Some (dq_id (q ! i))) q = Inr q'
                \<and> dq_retry_count (q' ! i) = Some (n + int (length fails))
                \<and> dq_status (q' ! i)
                    = Some (if 4 \<le> n + int (length fails) then ''failed'' else ''pending'')))
         \<and> (dq_retry_count (q ! i) = None \<and> fails \<noteq> [] \<longrightarrow>
              (\<exists>q'. fail_repeatedly fails (Some (dq_id (q ! i))) q = Inr q'
                \<and> dq_retry_count (q' ! i) = None
                \<and> dq_status (q' ! i) = Some ''pending''))"
proof -
  have one: "fail_discovery_item now (Some (dq_id (q ! i))) msg q
           = Inr (q[i := (q ! i)
                    \<lparr>dq_status := Some (if (\<exists>n. dq_retry_count (q ! i) = Some n \<and> 3 \<le> n)
                                        then ''failed'' else ''pending''),
                     dq_error_message := msg,
                     dq_retry_count := map_option (\<lambda>n. n + 1) (dq_retry_count (q ! i)),
                     dq_processed_at := Some now\<rparr>])"
    using fail_discovery_item_at [OF assms(1,2,4), of now msg] fail_row_eq [of now msg "q ! i"]
    by simp
  have "\<exists>q'. fail_repeatedly fails (Some (dq_id (q ! i))) q = Inr q'
                \<and> dq_retry_count (q' ! i) = Some (n + int (length fails))
                \<and> dq_status (q' ! i)
                    = Some (if 4 \<le> n + int (length fails) then ''failed'' else ''pending'')"
    if "dq_retry_count (q ! i) = Some n" "fails \<noteq> []" "n + int (length fails) \<le> 2147483647"
    for n
  proof -
    from assms(3) that(1) have "- 2147483648 \<le> n" by (simp add: int4_ok_def)
    from fail_repeatedly_at [OF assms(1,2) that(1) this that(3,2)] show ?thesis .
  qed
  with one fail_repeatedly_null [OF assms(1,2), of fails] show ?thesis by blast
qed

text \<open>
  An item with the default retry count 0: after three failures it is \<open>pending\<close> with the
  count 3, after four it is \<open>failed\<close>. An item with a \<open>NULL\<close> count is \<open>pending\<close> after
  four.
\<close>

theorem fail_discovery_item_retry_cap_witness:
  "distinct (map dq_id [queue_item 1 ''processing'' (Some 0) (Some 10)])
   \<and> dq_retry_count ([queue_item 1 ''processing'' (Some 0) (Some 10)] ! 0) = Some 0
   \<and> (\<exists>q'. fail_repeatedly [(11, None), (12, None), (13, Some ''timeout'')] (Some 1)
              [queue_item 1 ''processing'' (Some 0) (Some 10)] = Inr q'
          \<and> dq_retry_count (q' ! 0) = Some 3 \<and> dq_status (q' ! 0) = Some ''pending'')
   \<and> (\<exists>q'. fail_repeatedly [(11, None), (12, None), (13, None), (14, Some ''timeout'')] (Some 1)
              [queue_item 1 ''processing'' (Some 0) (Some 10)] = Inr q'
          \<and> dq_retry_count (q' ! 0) = Some 4 \<and> dq_status (q' ! 0) = Some ''failed'')
   \<and> distinct (map dq_id [queue_item 1 ''processing'' None (Some 10)])
   \<and> dq_retry_count ([queue_item 1 ''processing'' None (Some 10)] ! 0) = None
   \<and> (\<exists>q'. fail_repeatedly [(11, None), (12, None), (13, None), (14, Some ''timeout'')] (Some 1)
              [queue_item 1 ''processing'' None (Some 10)] = Inr q'
          \<and> dq_retry_count (q' ! 0) = None \<and> dq_status (q' ! 0) = Some ''pending'')"
proof -
  have d: "distinct (map dq_id [queue_item 1 ''processing'' (Some 0) (Some 10)])" by simp
  have l: "0 < length [queue_item 1 ''processing'' (Some 0) (Some 10)]" by simp
  have n: "dq_retry_count ([queue_item 1 ''processing'' (Some 0) (Some 10)] ! 0) = Some 0"
    by (simp add: queue_item_sel)
  have r: "int4_ok (dq_retry_count ([queue_item 1 ''processing'' (Some 0) (Some 10)] ! 0))"
    "int4_ok (map_option (\<lambda>n. n + 1)
       (dq_retry_count ([queue_item 1 ''processing'' (Some 0) (Some 10)] ! 0)))"
    by (simp_all add: queue_item_sel int4_ok_def)
  have d': "distinct (map dq_id [queue_item 1 ''processing'' None (Some 10)])" by simp
  have l': "0 < length [queue_item 1 ''processing'' None (Some 10)]" by simp
  have n': "dq_retry_count ([queue_item 1 ''processing'' None (Some 10)] ! 0) = None"
    by (simp add: queue_item_sel)
  have r': "int4_ok (dq_retry_count ([queue_item 1 ''processing'' None (Some 10)] ! 0))"
    "int4_ok (map_option (\<lambda>n. n + 1)
       (dq_retry_count ([queue_item 1 ''processing'' None (Some 10)] ! 0)))"
    by (simp_all add: queue_item_sel int4_ok_def)
  note t = fail_discovery_item_retry_cap [OF d l r]
  note t' = fail_discovery_item_retry_cap [OF d' l' r']
  from t [where fails = "[(11, None), (12, None), (13, Some ''timeout'')]"
            and now = 0 and msg = None]
    t [where fails = "[(11, None), (12, None), (13, None), (14, Some ''timeout'')]"
         and now = 0 and msg = None]
    t' [where fails = "[(11, None), (12, None), (13, None), (14, Some ''timeout'')]"
         and now = 0 and msg = None] d n d' n'
  show ?thesis by (simp add: queue_item_sel)
qed

subsection \<open>Taking the next discovery item\<close>

lemma nulls_last_le_refl: "nulls_last_le a a"
  by (cases a) auto

lemma sorted_head_least:
  assumes "sorted_wrt (\<lambda>a b. nulls_last_le (key a) (key b)) (y # ys)"
  shows "\<forall>z\<in>set (y # ys). nulls_last_le (key y) (key z)"
  using assms by (auto simp: nulls_last_le_refl)

lemma next_pending_id_None:
  "\<not> (\<exists>r\<in>set q. pending r \<and> dq_id r \<notin> set locked) \<Longrightarrow> next_pending_id locked q = None"
proof -
  assume "\<not> (\<exists>r\<in>set q. pending r \<and> dq_id r \<notin> set locked)"
  then have "filter (\<lambda>r. dq_id r \<notin> set locked) (order_by_asc dq_created_at (filter pending q)) = []"
    by (auto simp: filter_empty_conv set_order_by_asc)
  then show ?thesis by (simp add: next_pending_id_def)
qed

lemma next_pending_id_Some:
  assumes "\<exists>r\<in>set q. pending r \<and> dq_id r \<notin> set locked"
  shows "\<exists>y\<in>set q. pending y \<and> dq_id y \<notin> set locked
          \<and> (\<forall>z\<in>set q. pending z \<and> dq_id z \<notin> set locked
                \<longrightarrow> nulls_last_le (dq_created_at y) (dq_created_at z))
          \<and> next_pending_id locked q = Some (dq_id y)"
proof -
  define cands where
    "cands = filter (\<lambda>r. dq_id r \<notin> set locked) (order_by_asc dq_created_at (filter pending q))"
  have set_cands: "set cands = {r \<in> set q. pending r \<and> dq_id r \<notin> set locked}"
    by (auto simp: cands_def set_order_by_asc)
  with assms have "cands \<noteq> []" by auto
  then obtain y ys where c: "cands = y # ys" by (cases cands) auto
  have "sorted_wrt (\<lambda>a b. nulls_last_le (dq_created_at a) (dq_created_at b)) cands"
    unfolding cands_def by (intro sorted_wrt_filter sorted_order_by_asc)
  with c have least: "\<forall>z\<in>set cands. nulls_last_le (dq_created_at y) (dq_created_at z)"
    using sorted_head_least [of dq_created_at y ys] by simp
  have "y \<in> set cands" by (simp add: c)
  moreover have "next_pending_id locked q = Some (dq_id y)"
    using c by (simp add: next_pending_id_def cands_def)
  ultimately show ?thesis using least set_cands by auto
qed

lemma get_next_discovery_item_spec:
  assumes "distinct (map dq_id q)"
  shows "(\<not> (\<exists>r\<in>set q. pending r \<and> dq_id r \<notin> set locked)
            \<longrightarrow> get_next_discovery_item now locked q = (q, []))
         \<and> ((\<exists>r\<in>set q. pending r \<and> dq_id r \<notin> set locked) \<longrightarrow>
              (\<exists>i<length q. pending (q ! i) \<and> dq_id (q ! i) \<notin> set locked
                \<and> (\<forall>z\<in>set q. pending z \<and> dq_id z \<notin> set locked
                      \<longrightarrow> nulls_last_le (dq_created_at (q ! i)) (dq_created_at z))
                \<and> get_next_discovery_item now locked q
                    = (q[i := start_processing now (q ! i)], [start_processing now (q ! i)])))"
proof (intro conjI impI)
  assume "\<not> (\<exists>r\<in>set q. pending r \<and> dq_id r \<notin> set locked)"
  from next_pending_id_None [OF this]
  show "get_next_discovery_item now locked q = (q, [])"
    by (simp add: get_next_discovery_item_def is_true_def map_idI)
next
  assume "\<exists>r\<in>set q. pending r \<and> dq_id r \<notin> set locked"
  from next_pending_id_Some [OF this] obtain y where y: "y \<in> set q" "pending y"
    "dq_id y \<notin> set locked"
    "\<forall>z\<in>set q. pending z \<and> dq_id z \<notin> set locked
        \<longrightarrow> nulls_last_le (dq_created_at y) (dq_created_at z)"
    "next_pending_id locked q = Some (dq_id y)" by blast
  from y(1) obtain i where i: "i < length q" "q ! i = y" by (auto simp: in_set_conv_nth)
  have "get_next_discovery_item now locked q
          = (q[i := start_processing now (q ! i)], [start_processing now (q ! i)])"
    using map_update_distinct [OF assms i(1), of "start_processing now"]
      filter_distinct_nth [OF assms i(1)] y(5) i(2)
    by (simp add: get_next_discovery_item_def is_true_Some)
  with i y show "\<exists>i<length q. pending (q ! i) \<and> dq_id (q ! i) \<notin> set locked
                \<and> (\<forall>z\<in>set q. pending z \<and> dq_id z \<notin> set locked
                      \<longrightarrow> nulls_last_le (dq_created_at (q ! i)) (dq_created_at z))
                \<and> get_next_discovery_item now locked q
                    = (q[i := start_processing now (q ! i)], [start_processing now (q ! i)])"
    by blast
qed

text \<open>
  When no pending item is locked by another transaction, as when the call runs alone, the
  item taken is the oldest pending one.
\<close>

lemma get_next_discovery_item_alone:
  assumes "distinct (map dq_id q)" "\<forall>r\<in>set q. pending r \<longrightarrow> dq_id r \<notin> set locked"
  shows "(\<not> (\<exists>r\<in>set q. pending r) \<longrightarrow> get_next_discovery_item now locked q = (q, []))
         \<and> ((\<exists>r\<in>set q. pending r) \<longrightarrow>
              (\<exists>i<length q. dq_status (q ! i) = Some ''pending''
                \<and> (\<forall>z\<in>set q. pending z
                      \<longrightarrow> nulls_last_le (dq_created_at (q ! i)) (dq_created_at z))
                \<and> get_next_discovery_item now locked q
                    = (q[i := (q ! i)\<lparr>dq_status := Some ''processing'',
                                       dq_processed_at := Some now\<rparr>],
                       [(q ! i)\<lparr>dq_status := Some ''processing'',
                               dq_processed_at := Some now\<rparr>])))"
proof -
  have eq: "(\<exists>r\<in>set q. pending r \<and> dq_id r \<notin> set locked) = (\<exists>r\<in>set q. pending r)"
    using assms(2) by blast
  have p: "pending r = (dq_status r = Some ''pending'')" for r
    by (cases "dq_status r") (simp_all add: pending_def is_true_def)
  from get_next_discovery_item_spec [OF assms(1), of locked now] assms(2)
  show ?thesis
    unfolding eq start_processing_def p by blast
qed

text \<open>
  C6, as stated, fails when another transaction holds the lock of the oldest pending item:
  \<open>SKIP LOCKED\<close> passes that item over. Items 2 and 3 are pending, item 3 is the older
  one and is locked; the call takes item 2.
\<close>

theorem get_next_discovery_item_counterexample:
  "get_next_discovery_item 99 [3]
        [queue_item 1 ''completed'' (Some 0) (Some 10),
         queue_item 2 ''pending'' (Some 0) (Some 30),
         queue_item 3 ''pending'' (Some 1) (Some 20)]
      = ([queue_item 1 ''completed'' (Some 0) (Some 10),
          (queue_item 2 ''pending'' (Some 0) (Some 30))
             \<lparr>dq_status := Some ''processing'', dq_processed_at := Some 99\<rparr>,
          queue_item 3 ''pending'' (Some 1) (Some 20)],
         [(queue_item 2 ''pending'' (Some 0) (Some 30))
             \<lparr>dq_status := Some ''processing'', dq_processed_at := Some 99\<rparr>])
   \<and> pending (queue_item 3 ''pending'' (Some 1) (Some 20))
   \<and> \<not> nulls_last_le (dq_created_at (queue_item 2 ''pending'' (Some 0) (Some 30)))
                      (dq_created_at (queue_item 3 ''pending'' (Some 1) (Some 20)))"
  by (simp add: get_next_discovery_item_def next_pending_id_def pending_def is_true_def
        queue_item_sel start_processing_def)

text \<open>
  C6, amended. \<open>get_next_discovery_item\<close> changes exactly one row: a pending one that no
  other transaction has locked, whose \<open>created_at\<close> is the least among such rows (\<open>NULL\<close>
  counting as last). Its status becomes \<open>processing\<close> and its \<open>processed_at\<close> the current
  time, and the row so updated is the one row returned. When no pending item is free of
  locks, and so when no item is pending at all, nothing changes and no row is returned.
\<close>

theorem get_next_discovery_item_oldest_unlocked:
  assumes "distinct (map dq_id q)"
  shows "(\<not> (\<exists>r\<in>set q. pending r \<and> dq_id r \<notin> set locked)
            \<longrightarrow> get_next_discovery_item now locked q = (q, []))
         \<and> ((\<exists>r\<in>set q. pending r \<and> dq_id r \<notin> set locked) \<longrightarrow>
              (\<exists>i<length q. dq_status (q ! i) = Some ''pending'' \<and> dq_id (q ! i) \<notin> set locked
                \<and> (\<forall>z\<in>set q. pending z \<and> dq_id z \<notin> set locked
                      \<longrightarrow> nulls_last_le (dq_created_at (q ! i)) (dq_created_at z))
                \<and> get_next_discovery_item now locked q
                    = (q[i := (q ! i)\<lparr>dq_status := Some ''processing'',
                                       dq_processed_at := Some now\<rparr>],
                       [(q ! i)\<lparr>dq_status := Some ''processing'',
                               dq_processed_at := Some now\<rparr>])))"
proof -
  have p: "pending r \<Longrightarrow> dq_status r = Some ''pending''" for r
    by (cases "dq_status r") (simp_all add: pending_def is_true_def)
  from get_next_discovery_item_spec [OF assms, of locked now] p
  show ?thesis
    unfolding start_processing_def by blast
qed

text \<open>Three items, none locked: the older of the two pending ones is taken.\<close>

theorem get_next_discovery_item_oldest_unlocked_witness:
  "distinct (map dq_id [queue_item 1 ''completed'' (Some 0) (Some 10),
                        queue_item 2 ''pending'' (Some 0) (Some 30),
                        queue_item 3 ''pending'' (Some 1) (Some 20)])
   \<and> (\<exists>r\<in>set [queue_item 1 ''completed'' (Some 0) (Some 10),
                queue_item 2 ''pending'' (Some 0) (Some 30),
                queue_item 3 ''pending'' (Some 1) (Some 20)]. pending r \<and> dq_id r \<notin> set [])
   \<and> get_next_discovery_item 99 []
        [queue_item 1 ''completed'' (Some 0) (Some 10),
         queue_item 2 ''pending'' (Some 0) (Some 30),
         queue_item 3 ''pending'' (Some 1) (Some 20)]
      = ([queue_item 1 ''completed'' (Some 0) (Some 10),
          queue_item 2 ''pending'' (Some 0) (Some 30),
          (queue_item 3 ''pending'' (Some 1) (Some 20))
             \<lparr>dq_status := Some ''processing'', dq_processed_at := Some 99\<rparr>],
         [(queue_item 3 ''pending'' (Some 1) (Some 20))
             \<lparr>dq_status := Some ''processing'', dq_processed_at := Some 99\<rparr>])"
proof -
  let ?q = "[queue_item 1 ''completed'' (Some 0) (Some 10),
             queue_item 2 ''pending'' (Some 0) (Some 30),
             queue_item 3 ''pending'' (Some 1) (Some 20)]"
  have d: "distinct (map dq_id ?q)" by (simp add: queue_item_sel)
  have p: "\<exists>r\<in>set ?q. pending r \<and> dq_id r \<notin> set []"
    by (simp add: pending_def is_true_def queue_item_sel)
  have run: "get_next_discovery_item 99 [] ?q
      = ([queue_item 1 ''completed'' (Some 0) (Some 10),
          queue_item 2 ''pending'' (Some 0) (Some 30),
          (queue_item 3 ''pending'' (Some 1) (Some 20))
             \<lparr>dq_status := Some ''processing'', dq_processed_at := Some 99\<rparr>],
         [(queue_item 3 ''pending'' (Some 1) (Some 20))
             \<lparr>dq_status := Some ''processing'', dq_processed_at := Some 99\<rparr>])"
    by (simp add: get_next_discovery_item_def next_pending_id_def pending_def is_true_def
        queue_item_sel start_processing_def)
  from get_next_discovery_item_oldest_unlocked [OF d, of "[]" 99] d p run show ?thesis by blast
qed

subsection \<open>Discovery intake\<close>

lemma insert_discovery_item_Inr:
  "insert_discovery_item cs r q = Inr q' \<Longrightarrow>
     q' = q @ [r] \<and> dq_id r \<notin> set (map dq_id q) \<and> discovery_queue_row_error r = None"
  by (auto simp: insert_discovery_item_def split: option.splits if_splits)

lemma new_discovery_item_sel:
  "dq_id (new_discovery_item i t c) = i"
  "dq_domain (new_discovery_item i t c) = cc_domain c"
  "dq_name (new_discovery_item i t c) = Some (cc_name c)"
  "dq_source (new_discovery_item i t c) = Some (cc_source c)"
  "dq_location (new_discovery_item i t c) = cc_location c"
  "dq_country (new_discovery_item i t c) = cc_country c"
  "dq_industry (new_discovery_item i t c) = cc_industry c"
  "dq_employee_count (new_discovery_item i t c) = cc_employee_count c"
  "dq_funding_stage (new_discovery_item i t c) = cc_funding_stage c"
  by (simp_all add: new_discovery_item_def)

lemma merge_metadata_sel:
  "dq_id (merge_metadata c r) = dq_id r"
  "dq_domain (merge_metadata c r) = dq_domain r"
  "dq_name (merge_metadata c r) = dq_name r"
  "dq_source (merge_metadata c r) = dq_source r"
  "dq_location (merge_metadata c r) = coalesce (cc_location c) (dq_location r)"
  "dq_country (merge_metadata c r) = coalesce (cc_country c) (dq_country r)"
  "dq_industry (merge_metadata c r) = coalesce (cc_industry c) (dq_industry r)"
  "dq_employee_count (merge_metadata c r) = coalesce (cc_employee_count c) (dq_employee_count r)"
  "dq_funding_stage (merge_metadata c r) = coalesce (cc_funding_stage c) (dq_funding_stage r)"
  by (simp_all add: merge_metadata_def)

lemma find_append_last:
  "\<forall>x\<in>set xs. \<not> P x \<Longrightarrow> P y \<Longrightarrow> find P (xs @ [y]) = Some y"
  by (induction xs) auto

lemma find_none: "\<forall>x\<in>set xs. \<not> P x \<Longrightarrow> find P xs = None"
  by (induction xs) auto

lemma new_discovery_item_company: "dq_company_id (new_discovery_item i t c) = None"
  by (simp add: new_discovery_item_def)

lemma acme_rows_ok:
  "discovery_queue_row_error (new_discovery_item i t acme) = None"
  "discovery_queue_row_error (merge_metadata acme_again (new_discovery_item i t acme)) = None"
  "discovery_queue_row_error (new_discovery_item i t acme_again) = None"
  by (simp_all add: discovery_queue_row_error_def discovery_queue_checks_def check_passes_def
      int4_ok_def new_discovery_item_def merge_metadata_def acme_def acme_again_def coalesce_def)

lemma acme_enqueued:
  "enqueue_candidate (\<lambda>x. x) (\<lambda>x. x) 1 10 acme [] = Inr [new_discovery_item 1 10 acme]"
  by (simp add: enqueue_candidate_def insert_discovery_item_def acme_rows_ok references_ok_def
      new_discovery_item_sel new_discovery_item_company)

lemma acme_enqueued_again:
  "enqueue_candidate (\<lambda>x. x) (\<lambda>x. x) 2 20 acme_again [new_discovery_item 1 10 acme]
     = Inr [merge_metadata acme_again (new_discovery_item 1 10 acme)]"
  by (simp add: enqueue_candidate_def acme_rows_ok row_dedupe_key_def dedupe_key_def
      new_discovery_item_sel, simp add: acme_def acme_again_def)

text \<open>
  C7. Two candidates with the same domain and source (and, where the domain is absent,
  the same name), enqueued one after the other into a queue that has no row for that
  company yet, leave exactly one row for it: the row of the first, in which every metadata
  column holds the value of the second where that is not \<open>NULL\<close> and the value of the
  first otherwise.
\<close>

theorem enqueue_candidate_twice:
  assumes same: "cc_domain c1 = cc_domain c2" "cc_source c1 = cc_source c2"
      "cc_domain c1 = None \<longrightarrow> cc_name c1 = cc_name c2"
    and fresh: "rows_with_key nd nn (dedupe_key nd nn c1) q = 0"
    and e1: "enqueue_candidate nd nn id1 t1 c1 q = Inr q1"
    and e2: "enqueue_candidate nd nn id2 t2 c2 q1 = Inr q2"
  shows "q2 = q @ [merge_metadata c2 (new_discovery_item id1 t1 c1)]
         \<and> rows_with_key nd nn (dedupe_key nd nn c1) q2 = 1
         \<and> (\<forall>d. cc_domain c1 = Some d \<longrightarrow> rows_for d (cc_source c1) q2 = 1)
         \<and> dq_location (last q2) = coalesce (cc_location c2) (cc_location c1)
         \<and> dq_country (last q2) = coalesce (cc_country c2) (cc_country c1)
         \<and> dq_industry (last q2) = coalesce (cc_industry c2) (cc_industry c1)
         \<and> dq_employee_count (last q2) = coalesce (cc_employee_count c2) (cc_employee_count c1)
         \<and> dq_funding_stage (last q2) = coalesce (cc_funding_stage c2) (cc_funding_stage c1)"
proof -
  let ?new = "new_discovery_item id1 t1 c1"
  let ?k = "dedupe_key nd nn c1"
  let ?P = "\<lambda>c r. row_dedupe_key nd nn r = Some (dedupe_key nd nn c)"
  have k2: "dedupe_key nd nn c2 = ?k"
    using same by (auto simp: dedupe_key_def split: option.splits)
  have knew: "row_dedupe_key nd nn ?new = Some ?k"
    by (auto simp: row_dedupe_key_def dedupe_key_def new_discovery_item_sel
        split: option.splits)
  from fresh have none: "\<forall>r\<in>set q. row_dedupe_key nd nn r \<noteq> Some ?k"
    by (simp add: rows_with_key_def filter_empty_conv)
  then have "find (?P c1) q = None" by (intro find_none) simp
  with e1 have "insert_discovery_item [] ?new q = Inr q1"
    by (simp add: enqueue_candidate_def)
  from insert_discovery_item_Inr [OF this]
  have q1: "q1 = q @ [?new]" and newid: "id1 \<notin> set (map dq_id q)"
    by (simp_all add: new_discovery_item_sel)
  have "find (?P c2) q1 = Some ?new"
    unfolding q1 using none knew by (intro find_append_last) (simp_all add: k2)
  with e2 have "q2 = map (\<lambda>r. if dq_id r = dq_id ?new then merge_metadata c2 r else r) q1"
    by (auto simp: enqueue_candidate_def split: option.splits)
  moreover have "map (\<lambda>r. if dq_id r = id1 then merge_metadata c2 r else r) q = q"
    using newid by (intro map_idI) auto
  ultimately have q2: "q2 = q @ [merge_metadata c2 ?new]"
    by (simp add: q1 new_discovery_item_sel)
  have kmerged: "row_dedupe_key nd nn (merge_metadata c2 ?new) = Some ?k"
    using knew by (simp add: row_dedupe_key_def merge_metadata_sel split: option.splits)
  have count: "rows_with_key nd nn ?k q2 = 1"
    using fresh kmerged by (simp add: rows_with_key_def q2)
  have "rows_for d (cc_source c1) q2 = 1" if d: "cc_domain c1 = Some d" for d
  proof -
    from d have "?k = nd d" by (simp add: dedupe_key_def)
    with none have "filter (\<lambda>r. dq_domain r = Some d \<and> dq_source r = Some (cc_source c1)) q = []"
      by (auto simp: filter_empty_conv row_dedupe_key_def)
    with d show ?thesis
      by (simp add: rows_for_def q2 merge_metadata_sel new_discovery_item_sel)
  qed
  with q2 count show ?thesis
    by (simp add: merge_metadata_sel new_discovery_item_sel)
qed

theorem enqueue_candidate_twice_witness:
  "cc_domain acme = cc_domain acme_again \<and> cc_source acme = cc_source acme_again
   \<and> rows_with_key (\<lambda>x. x) (\<lambda>x. x) (dedupe_key (\<lambda>x. x) (\<lambda>x. x) acme) [] = 0
   \<and> enqueue_candidate (\<lambda>x. x) (\<lambda>x. x) 1 10 acme [] = Inr [new_discovery_item 1 10 acme]
   \<and> enqueue_candidate (\<lambda>x. x) (\<lambda>x. x) 2 20 acme_again [new_discovery_item 1 10 acme]
       = Inr [merge_metadata acme_again (new_discovery_item 1 10 acme)]
   \<and> rows_for ''acme.test'' ''seed'' [merge_metadata acme_again (new_discovery_item 1 10 acme)] = 1
   \<and> dq_location (last [merge_metadata acme_again (new_discovery_item 1 10 acme)]) = Some ''Austin''
   \<and> dq_country (last [merge_metadata acme_again (new_discovery_item 1 10 acme)]) = Some ''US''
   \<and> dq_industry (last [merge_metadata acme_again (new_discovery_item 1 10 acme)]) = Some ''robotics''
   \<and> dq_employee_count (last [merge_metadata acme_again (new_discovery_item 1 10 acme)]) = Some 55
   \<and> dq_funding_stage (last [merge_metadata acme_again (new_discovery_item 1 10 acme)]) = None"
proof -
  have d: "cc_domain acme = cc_domain acme_again" "cc_source acme = cc_source acme_again"
      "cc_domain acme = None \<longrightarrow> cc_name acme = cc_name acme_again"
    by (simp_all add: acme_def acme_again_def)
  have dom: "cc_domain acme = Some ''acme.test''" and src: "cc_source acme = ''seed''"
    by (simp_all add: acme_def)
  have f: "rows_with_key (\<lambda>x. x) (\<lambda>x. x) (dedupe_key (\<lambda>x. x) (\<lambda>x. x) acme) [] = 0"
    by (simp add: rows_with_key_def)
  have m: "coalesce (cc_location acme_again) (cc_location acme) = Some ''Austin''"
    "coalesce (cc_country acme_again) (cc_country acme) = Some ''US''"
    "coalesce (cc_industry acme_again) (cc_industry acme) = Some ''robotics''"
    "coalesce (cc_employee_count acme_again) (cc_employee_count acme) = Some 55"
    "coalesce (cc_funding_stage acme_again) (cc_funding_stage acme) = None"
    by (simp_all add: coalesce_def acme_def acme_again_def)
  from enqueue_candidate_twice [OF d f acme_enqueued acme_enqueued_again]
    d f dom src acme_enqueued acme_enqueued_again m
  show ?thesis by simp
qed

text \<open>
  The table itself declares no uniqueness over \<open>domain\<close> and \<open>source\<close>: two plain inserts
  of the same two candidates give two rows. The single row is the work of the intake.
\<close>

lemma discovery_queue_plain_inserts_duplicate:
  "insert_discovery_item [] (new_discovery_item 1 10 acme) [] = Inr [new_discovery_item 1 10 acme]"
  "insert_discovery_item [] (new_discovery_item 2 20 acme_again) [new_discovery_item 1 10 acme]
     = Inr [new_discovery_item 1 10 acme, new_discovery_item 2 20 acme_again]"
  "rows_for ''acme.test'' ''seed'' [new_discovery_item 1 10 acme, new_discovery_item 2 20 acme_again] = 2"
  by (simp_all add: insert_discovery_item_def acme_rows_ok references_ok_def rows_for_def
      new_discovery_item_sel new_discovery_item_company, simp_all add: acme_def acme_again_def)


end
